theory Spec2Isabelle
  imports Complex_Main "HOL-Library.AList" "HOL-Library.Sublist"
begin

section \<open>Numbers\<close>

text \<open>
  Amounts are JavaScript numbers in the source.  They are modelled as exact reals:
  \<^verbatim>\<open>Math.round(x)\<close> is \<open>\<lfloor>x + 1/2\<rfloor>\<close>, and the cent rounding
  \<^verbatim>\<open>Math.round(x * 100) / 100\<close> of the engines is \<open>round2\<close>.  Binary floating-point
  representation error and the infinities are outside the model.
\<close>

definition round2 :: "real \<Rightarrow> real" where
  "round2 x = of_int \<lfloor>x * 100 + 1 / 2\<rfloor> / 100"

text \<open>\<^verbatim>\<open>values.reduce((sum, val) => sum + val, 0)\<close>\<close>

definition sumValues :: "real list \<Rightarrow> real" where
  "sumValues vs = foldl (\<lambda>sum val. sum + val) 0 vs"

text \<open>\<^verbatim>\<open>x || 0\<close> on a number: a falsy number (zero) is replaced by \<open>0\<close>.\<close>

definition orZero :: "real \<Rightarrow> real" where
  "orZero x = (if x = 0 then 0 else x)"

text \<open>
  What reading a property of the memo object of the free-form engine can give: a number,
  \<^verbatim>\<open>NaN\<close>, or a function or object inherited from \<^verbatim>\<open>Object.prototype\<close>.  Arithmetic
  on a value that is not a number gives \<^verbatim>\<open>NaN\<close> (\<^verbatim>\<open>ToNumber\<close> of a function or of
  \<^verbatim>\<open>Object.prototype\<close> is \<^verbatim>\<open>NaN\<close>, and \<^verbatim>\<open>NaN\<close> propagates through
  \<^verbatim>\<open>*\<close>, \<^verbatim>\<open>/\<close>, \<^verbatim>\<open>+\<close> and \<^verbatim>\<open>Math.round\<close>); \<open>onNumber f v\<close> is the numeric
  expression \<open>f\<close> evaluated at such a value.
\<close>

datatype JsValue = Num real | NaN | ProtoObject

definition onNumber :: "(real \<Rightarrow> real) \<Rightarrow> JsValue \<Rightarrow> JsValue" where
  "onNumber f v = (case v of Num a \<Rightarrow> Num (f a) | NaN \<Rightarrow> NaN | ProtoObject \<Rightarrow> NaN)"

section \<open>The free-form canvas: nodes and connections\<close>

text \<open>
  \<^verbatim>\<open>FlowchartNode\<close> of \<^verbatim>\<open>flowchart-canvas.tsx\<close>.  The fields that only drive the
  drawing (label, description, position, size, category, calculatedAmount) are left out.
  Optional fields are options; \<open>parentId\<close> is \<open>None\<close> for \<^verbatim>\<open>null\<close>.
  The field \<^verbatim>\<open>id\<close> is called \<open>ident\<close>.
\<close>

datatype AmountType = Percent | Fixed | Formula

record FlowchartNode =
  ident :: string
  amountType :: AmountType
  amountValue :: real
  percentValues :: "real list option"
  fixedValues :: "real list option"
  percentValue :: "real option"
  fixedValue :: "real option"
  usePercent :: bool
  useFixed :: bool
  formula :: "string option"
  parentId :: "string option"

record FlowchartConnection =
  conn_id :: string
  conn_from :: string
  conn_to :: string

text \<open>
  \<^verbatim>\<open>!node.parentId\<close>: \<^verbatim>\<open>null\<close> and the empty string are both falsy.
\<close>

definition noParent :: "FlowchartNode \<Rightarrow> bool" where
  "noParent node = (case parentId node of None \<Rightarrow> True | Some p \<Rightarrow> p = [])"

text \<open>\<^verbatim>\<open>node.fixedValues && node.fixedValues.length > 0\<close> and its percent twin.\<close>

definition hasValues :: "real list option \<Rightarrow> bool" where
  "hasValues vs = (case vs of None \<Rightarrow> False | Some l \<Rightarrow> l \<noteq> [])"

text \<open>The amount given to a parentless node by the first pass of \<^verbatim>\<open>calculateNodeAmounts\<close>.\<close>

definition rootAmount :: "FlowchartNode \<Rightarrow> real" where
  "rootAmount node =
     (if useFixed node \<and> hasValues (fixedValues node) then sumValues (the (fixedValues node))
      else if useFixed node \<and> fixedValue node \<noteq> None then the (fixedValue node)
      else if amountType node = Fixed then amountValue node
      else orZero (amountValue node))"

text \<open>The same fallback inside \<^verbatim>\<open>compute\<close> (it has no \<^verbatim>\<open>"fixed"\<close> case).\<close>

definition rootAmountCompute :: "FlowchartNode \<Rightarrow> real" where
  "rootAmountCompute node =
     (if useFixed node \<and> hasValues (fixedValues node) then sumValues (the (fixedValues node))
      else if useFixed node \<and> fixedValue node \<noteq> None then the (fixedValue node)
      else orZero (amountValue node))"

definition percentTotal :: "FlowchartNode \<Rightarrow> real" where
  "percentTotal node =
     (if usePercent node then
        (if hasValues (percentValues node) then sumValues (the (percentValues node))
         else (case percentValue node of Some v \<Rightarrow> v | None \<Rightarrow> 0))
      else 0)"

definition fixedTotal :: "FlowchartNode \<Rightarrow> real" where
  "fixedTotal node =
     (if useFixed node then
        (if hasValues (fixedValues node) then sumValues (the (fixedValues node))
         else (case fixedValue node of Some v \<Rightarrow> v | None \<Rightarrow> 0))
      else 0)"

text \<open>
  The rule chain of \<^verbatim>\<open>compute\<close> ("Calculate final amount based on parent"), before
  rounding; \<open>calculated\<close> starts at \<open>0\<close>.  \<open>parentAmount\<close> is what the recursive call
  returned; the branches that multiply it give \<^verbatim>\<open>NaN\<close> when it is not a number.
\<close>

definition calculated :: "FlowchartNode \<Rightarrow> JsValue \<Rightarrow> JsValue" where
  "calculated node parentAmount =
     (if usePercent node \<and> useFixed node then
        onNumber (\<lambda>a. (a * percentTotal node) / 100 + fixedTotal node) parentAmount
      else if usePercent node \<and> percentTotal node > 0 then
        onNumber (\<lambda>a. (a * percentTotal node) / 100) parentAmount
      else if useFixed node \<and> fixedTotal node > 0 then Num (fixedTotal node)
      else if amountType node = Percent then
        onNumber (\<lambda>a. (a * amountValue node) / 100) parentAmount
      else if amountType node = Fixed then Num (amountValue node)
      else if amountType node = Formula \<and> formula node \<noteq> None \<and> formula node \<noteq> Some []
        then Num (amountValue node)
      else Num 0)"

text \<open>\<^verbatim>\<open>nodeList.find((n) => n.id === nodeId)\<close>\<close>

definition findNode :: "FlowchartNode list \<Rightarrow> string \<Rightarrow> FlowchartNode option" where
  "findNode nodeList nodeId = find (\<lambda>n. ident n = nodeId) nodeList"

lemma findNode_in: "findNode nodeList nodeId = Some node \<Longrightarrow> nodeId \<in> ident ` set nodeList"
  by (auto simp: findNode_def find_Some_iff)

text \<open>
  The memo table \<^verbatim>\<open>amounts\<close> is the object literal \<^verbatim>\<open>{}\<close>, so its prototype is
  \<^verbatim>\<open>Object.prototype\<close>.  The table is modelled by its own properties, a finite map
  from ids to values, together with the names it inherits: the properties of
  \<^verbatim>\<open>Object.prototype\<close> of ECMAScript, Annex B included.

  \<open>readProp\<close> is the read \<^verbatim>\<open>amounts[k]\<close>, with \<open>None\<close> for \<^verbatim>\<open>undefined\<close>: an own
  property if there is one, else the inherited function (for \<^verbatim>\<open>__proto__\<close> the
  prototype object itself), else \<^verbatim>\<open>undefined\<close>.

  \<open>store\<close> is the assignment \<^verbatim>\<open>amounts[k] = v\<close> of a number: it creates or overwrites
  the own property \<open>k\<close>, shadowing an inherited method of that name; for
  \<^verbatim>\<open>__proto__\<close> it calls the inherited setter, which ignores a value that is not an
  object, so nothing is stored.
\<close>

definition objectPrototypeNames :: "string list" where
  "objectPrototypeNames =
     [''constructor'', ''__defineGetter__'', ''__defineSetter__'', ''hasOwnProperty'',
      ''__lookupGetter__'', ''__lookupSetter__'', ''isPrototypeOf'', ''propertyIsEnumerable'',
      ''toString'', ''valueOf'', ''__proto__'', ''toLocaleString'']"

definition readProp :: "(string \<rightharpoonup> JsValue) \<Rightarrow> string \<Rightarrow> JsValue option" where
  "readProp amounts k =
     (case amounts k of
        Some v \<Rightarrow> Some v
      | None \<Rightarrow> if k \<in> set objectPrototypeNames then Some ProtoObject else None)"

definition store :: "(string \<rightharpoonup> JsValue) \<Rightarrow> string \<Rightarrow> JsValue \<Rightarrow> (string \<rightharpoonup> JsValue)" where
  "store amounts k v = (if k = ''__proto__'' then amounts else amounts(k \<mapsto> v))"

text \<open>
  \<^verbatim>\<open>compute(nodeId, path)\<close> with the memo table \<^verbatim>\<open>amounts\<close> passed explicitly and
  returned updated.  The memo test \<^verbatim>\<open>amounts[nodeId] !== undefined\<close> is
  \<open>readProp amounts nodeId \<noteq> None\<close>: it also succeeds on an inherited name that has no
  own entry, and the call then returns the inherited value and stores nothing.  The two
  branches that end with \<^verbatim>\<open>return amounts[nodeId]\<close> return the value just stored (the
  memo test has failed there, so \<open>nodeId\<close> is not \<^verbatim>\<open>__proto__\<close> and the store took
  place).  The source has no \<^verbatim>\<open>throw\<close>; every branch returns.
\<close>

function compute ::
  "FlowchartNode list \<Rightarrow> string \<Rightarrow> string set \<Rightarrow> (string \<rightharpoonup> JsValue)
     \<Rightarrow> JsValue \<times> (string \<rightharpoonup> JsValue)"
where
  "compute nodeList nodeId path amounts =
     (if nodeId \<in> path then (Num 0, store amounts nodeId (Num 0))
      else case readProp amounts nodeId of
        Some a \<Rightarrow> (a, amounts)
      | None \<Rightarrow>
          (case findNode nodeList nodeId of
             None \<Rightarrow> (Num 0, store amounts nodeId (Num 0))
           | Some node \<Rightarrow>
               if noParent node then
                 (Num (rootAmountCompute node), store amounts nodeId (Num (rootAmountCompute node)))
               else
                 (case compute nodeList (the (parentId node)) (insert nodeId path) amounts of
                    (parentAmount, amounts') \<Rightarrow>
                      (onNumber round2 (calculated node parentAmount),
                       store amounts' nodeId (onNumber round2 (calculated node parentAmount))))))"
  by pat_completeness auto
termination
proof (relation "measure (\<lambda>(nodeList, nodeId, path, amounts). card (ident ` set nodeList - path))")
  show "wf (measure (\<lambda>(nodeList, nodeId, path, amounts). card (ident ` set nodeList - path)))"
    by simp
next
  fix nodeList :: "FlowchartNode list" and nodeId :: string and path :: "string set"
    and amounts :: "string \<rightharpoonup> JsValue" and node :: FlowchartNode
  assume fresh: "nodeId \<notin> path" and found: "findNode nodeList nodeId = Some node"
  have mem: "nodeId \<in> ident ` set nodeList - path"
    using fresh findNode_in [OF found] by simp
  have eq: "ident ` set nodeList - insert nodeId path = (ident ` set nodeList - path) - {nodeId}"
    by auto
  have "finite (ident ` set nodeList - path)"
    by simp
  then have "card ((ident ` set nodeList - path) - {nodeId}) < card (ident ` set nodeList - path)"
    using mem by (rule card_Diff1_less)
  then have "card (ident ` set nodeList - insert nodeId path) < card (ident ` set nodeList - path)"
    by (simp only: eq)
  then show "((nodeList, the (parentId node), insert nodeId path, amounts),
              (nodeList, nodeId, path, amounts))
             \<in> measure (\<lambda>(nodeList, nodeId, path, amounts). card (ident ` set nodeList - path))"
    by simp
qed

declare compute.simps [simp del]

text \<open>
  \<^verbatim>\<open>calculateNodeAmounts(nodeList)\<close>: the first pass seeds every parentless node, the
  second calls \<^verbatim>\<open>compute(node.id)\<close> (empty path) for every node in list order.  The
  result is the table's own properties.
\<close>

definition seedRoots :: "FlowchartNode list \<Rightarrow> (string \<rightharpoonup> JsValue)" where
  "seedRoots nodeList =
     fold (\<lambda>node amounts. if noParent node then store amounts (ident node) (Num (rootAmount node))
                           else amounts)
       nodeList Map.empty"

definition computeAll ::
  "FlowchartNode list \<Rightarrow> FlowchartNode list \<Rightarrow> (string \<rightharpoonup> JsValue) \<Rightarrow> (string \<rightharpoonup> JsValue)"
where
  "computeAll nodeList todo amounts =
     fold (\<lambda>node amounts. snd (compute nodeList (ident node) {} amounts)) todo amounts"

definition calculateNodeAmounts :: "FlowchartNode list \<Rightarrow> (string \<rightharpoonup> JsValue)" where
  "calculateNodeAmounts nodeList = computeAll nodeList nodeList (seedRoots nodeList)"

text \<open>
  The parent reference the engine follows from an id: the \<^verbatim>\<open>parentId\<close> of the first
  node with that id, when it is truthy.  \<open>parentRel\<close> is the graph of these references; a
  node is on a parent cycle when it reaches itself in \<open>(parentRel nodeList)\<^sup>+\<close>.
\<close>

definition parentOf :: "FlowchartNode list \<Rightarrow> string \<Rightarrow> string option" where
  "parentOf nodeList nodeId =
     (case findNode nodeList nodeId of
        None \<Rightarrow> None
      | Some node \<Rightarrow> if noParent node then None else parentId node)"

definition parentRel :: "FlowchartNode list \<Rightarrow> (string \<times> string) set" where
  "parentRel nodeList = {(k, p). parentOf nodeList k = Some p}"



text \<open>
  A cycle through \<open>k\<close> all of whose nodes have a rule that gives \<open>0\<close> at parent amount
  \<open>0\<close> (a rule without a fixed part) and an id that is not an inherited name.
\<close>

definition zeroCycle :: "FlowchartNode list \<Rightarrow> string \<Rightarrow> bool" where
  "zeroCycle nodeList k \<longleftrightarrow>
     (k, k) \<in> (parentRel nodeList)\<^sup>+ \<and>
     (\<forall>node\<in>set nodeList. (k, ident node) \<in> (parentRel nodeList)\<^sup>* \<longrightarrow>
        calculated node (Num 0) = Num 0 \<and> ident node \<notin> set objectPrototypeNames)"

subsection \<open>Example node lists\<close>

text \<open>
  A root of amount 1000, built the way the canvas builds its root from commission data,
  with a child of percent \<open>[10]\<close> and fixed \<open>[50]\<close>, and a second child with percent
  values \<open>[12.3, 0.045]\<close> and the legacy single fixed value \<open>0.008\<close>.
\<close>

definition exampleRoot :: FlowchartNode where
  "exampleRoot = \<lparr>ident = ''root'', amountType = Fixed, amountValue = 1000,
     percentValues = None, fixedValues = None, percentValue = None, fixedValue = Some 1000,
     usePercent = False, useFixed = True, formula = None, parentId = None\<rparr>"

definition exampleChild :: FlowchartNode where
  "exampleChild = \<lparr>ident = ''child'', amountType = Percent, amountValue = 10,
     percentValues = Some [10], fixedValues = Some [50], percentValue = None, fixedValue = None,
     usePercent = True, useFixed = True, formula = Some [], parentId = Some ''root''\<rparr>"


text \<open>
  The example child under the id \<^verbatim>\<open>constructor\<close>, as a stored flowchart or the data of
  the canvas URL can name it, and a child of that node.
\<close>

definition constructorChild :: FlowchartNode where
  "constructorChild = exampleChild\<lparr>ident := ''constructor''\<rparr>"

definition constructorGrandchild :: FlowchartNode where
  "constructorGrandchild = exampleChild\<lparr>ident := ''leaf'', parentId := Some ''constructor''\<rparr>"

text \<open>
  Two parentless nodes: one with fixed \<open>[75]\<close>, and a 50 percent node as the canvas
  builds it from commission data (\<^verbatim>\<open>amountValue\<close> is the percent times 100), detached.
\<close>

definition detachedFixed :: FlowchartNode where
  "detachedFixed = \<lparr>ident = ''detached'', amountType = Percent, amountValue = 0,
     percentValues = None, fixedValues = Some [75], percentValue = None, fixedValue = None,
     usePercent = False, useFixed = True, formula = Some [], parentId = None\<rparr>"

definition detachedPercent :: FlowchartNode where
  "detachedPercent = \<lparr>ident = ''copy'', amountType = Percent, amountValue = 50,
     percentValues = Some [50], fixedValues = None, percentValue = None, fixedValue = None,
     usePercent = True, useFixed = False, formula = Some [], parentId = None\<rparr>"

text \<open>
  Two-node cycles \<open>A \<rightarrow> B \<rightarrow> A\<close>: in the first \<open>A\<close> takes 50 percent and \<open>B\<close> a fixed 20;
  in the second both take 50 percent; in the third both have the percent and the fixed
  flag set, \<open>A\<close> with 50 percent plus 10 and \<open>B\<close> with 50 percent plus 20.
\<close>

definition cycleNode :: "string \<Rightarrow> string \<Rightarrow> bool \<Rightarrow> real list \<Rightarrow> bool \<Rightarrow> real list \<Rightarrow> FlowchartNode"
where
  "cycleNode i p up pv uf fv = \<lparr>ident = i, amountType = Percent, amountValue = 0,
     percentValues = (if up then Some pv else None), fixedValues = (if uf then Some fv else None),
     percentValue = None, fixedValue = None, usePercent = up, useFixed = uf,
     formula = Some [], parentId = Some p\<rparr>"

definition cycleFixed :: "FlowchartNode list" where
  "cycleFixed = [cycleNode ''A'' ''B'' True [50] False [], cycleNode ''B'' ''A'' False [] True [20]]"

definition cyclePercent :: "FlowchartNode list" where
  "cyclePercent = [cycleNode ''A'' ''B'' True [50] False [], cycleNode ''B'' ''A'' True [50] False []]"

definition cycleBoth :: "FlowchartNode list" where
  "cycleBoth = [cycleNode ''A'' ''B'' True [50] True [10], cycleNode ''B'' ''A'' True [50] True [20]]"

section \<open>The template-driven tree: schema\<close>

text \<open>
  \<^verbatim>\<open>NodeTemplate\<close>, \<^verbatim>\<open>payoutNodes\<close>, \<^verbatim>\<open>rootNodeId\<close> and \<^verbatim>\<open>parentMap\<close> of the payout
  schema.  Labels, descriptions and accents only drive the display and are left out.
  \<^verbatim>\<open>payoutNodes\<close> is an association list in the order of the object literal, which is
  the order \<^verbatim>\<open>Object.keys\<close> and \<^verbatim>\<open>Object.values\<close> iterate in.
\<close>

datatype NodeKind = Standard | Group

record NodeTemplate =
  tmpl_id :: string
  defaultPercent :: "real option"
  defaultFixed :: "real option"
  childIds :: "string list option"
  kind :: "NodeKind option"

definition template ::
  "string \<Rightarrow> real option \<Rightarrow> real option \<Rightarrow> string list option \<Rightarrow> NodeKind option
     \<Rightarrow> string \<times> NodeTemplate"
where
  "template i dp df cs k =
     (i, \<lparr>tmpl_id = i, defaultPercent = dp, defaultFixed = df, childIds = cs, kind = k\<rparr>)"

definition rootNodeId :: string where
  "rootNodeId = ''developerPayout''"

definition payoutNodes :: "(string \<times> NodeTemplate) list" where
  "payoutNodes =
    [template ''developerPayout'' None None
       (Some [''directIcb'', ''taggerCombined'', ''eraAgency'']) None,
     template ''directIcb'' (Some 0.022) None (Some [''ecb'', ''icb'']) None,
     template ''ecb'' (Some (1.7 / 2.2)) None None None,
     template ''icb'' (Some (0.5 / 2.2)) None None None,
     template ''taggerFee'' (Some 0.003) None (Some [''taggerKw'', ''taggerEra'']) None,
     template ''taggerCombined'' (Some 0) None
       (Some [''taggerFee'', ''taggerIncentive'']) (Some Group),
     template ''taggerIncentive'' None (Some 2000)
       (Some [''taggerIncentiveSpecialist'', ''taggerIncentiveEra'']) None,
     template ''taggerKw'' (Some 0.85) None
       (Some [''projectSpecialist'', ''newLaunchTeam'', ''kwHq'']) None,
     template ''taggerEra'' (Some 0.15) None None None,
     template ''taggerIncentiveSpecialist'' (Some 0.85) None None None,
     template ''taggerIncentiveEra'' (Some 0.15) None None None,
     template ''eraAgency'' (Some 0.005) None None None,
     template ''referralFee'' (Some 0) None (Some [''referralAgent'', ''referralEra'']) None,
     template ''referralAgent'' (Some 0.7) None None None,
     template ''referralEra'' (Some 0.3) None None None,
     template ''overrideCommission'' (Some 0) None
       (Some [''overrideManager'', ''overrideTeam'']) None,
     template ''overrideManager'' (Some 0.6) None None None,
     template ''overrideTeam'' (Some 0.4) None None None,
     template ''projectSpecialist'' (Some 0.65) None None None,
     template ''newLaunchTeam'' (Some 0.2) None
       (Some [''projectDirector'', ''projectLeads'']) None,
     template ''kwHq'' (Some 0.15) None None None,
     template ''projectDirector'' (Some 0.5) None None None,
     template ''projectLeads'' (Some 0.5) None
       (Some [''shirlyn'', ''elizabeth'', ''surya'', ''benjamin'']) None,
     template ''shirlyn'' (Some 0.25) None None None,
     template ''elizabeth'' (Some 0.25) None None None,
     template ''surya'' (Some 0.25) None None None,
     template ''benjamin'' (Some 0.25) None None None]"

text \<open>\<^verbatim>\<open>template.childIds ?? []\<close>\<close>

definition childIdsOf :: "NodeTemplate \<Rightarrow> string list" where
  "childIdsOf t = (case childIds t of None \<Rightarrow> [] | Some cs \<Rightarrow> cs)"

text \<open>
  \<^verbatim>\<open>buildParentMap\<close>.  The record maps an id to a string or \<^verbatim>\<open>null\<close>; every reader
  only tests the entry for truthiness, so \<^verbatim>\<open>null\<close> and a missing entry are both
  \<open>None\<close>.
\<close>

definition buildParentMap :: "(string \<times> NodeTemplate) list \<Rightarrow> (string \<rightharpoonup> string)" where
  "buildParentMap nodes =
     fold (\<lambda>node m. fold (\<lambda>childId m. m(childId \<mapsto> tmpl_id node)) (childIdsOf node) m)
       (map snd nodes) Map.empty"

definition parentMap :: "string \<rightharpoonup> string" where
  "parentMap = buildParentMap payoutNodes"

text \<open>\<^verbatim>\<open>nodeId.startsWith("projectLeads_lead_")\<close>\<close>

definition isDynamicChild :: "string \<Rightarrow> bool" where
  "isDynamicChild nodeId = prefix ''projectLeads_lead_'' nodeId"

text \<open>A string or \<^verbatim>\<open>undefined\<close>/\<^verbatim>\<open>null\<close> used as a condition.\<close>

definition truthy :: "string option \<Rightarrow> bool" where
  "truthy s = (case s of None \<Rightarrow> False | Some x \<Rightarrow> x \<noteq> [])"

section \<open>The template-driven tree: amounts\<close>

record NodeValue =
  percent :: real
  fixed :: real

text \<open>
  \<^verbatim>\<open>const { percent = 0, fixed = 0 } = nodeValues[nodeId] ?? {}\<close>
\<close>

definition percentOf :: "(string \<rightharpoonup> NodeValue) \<Rightarrow> string \<Rightarrow> real" where
  "percentOf nodeValues nodeId = (case nodeValues nodeId of None \<Rightarrow> 0 | Some v \<Rightarrow> percent v)"

definition fixedOf :: "(string \<rightharpoonup> NodeValue) \<Rightarrow> string \<Rightarrow> real" where
  "fixedOf nodeValues nodeId = (case nodeValues nodeId of None \<Rightarrow> 0 | Some v \<Rightarrow> fixed v)"

text \<open>
  The state of the \<^verbatim>\<open>PayoutTree\<close> component that the modelled handlers read or write
  (\<^verbatim>\<open>useState\<close> cells).  \<^verbatim>\<open>dynamicChildren\<close> is an association list in key
  insertion order, the order \<^verbatim>\<open>Object.keys\<close> iterates in.  The payout modal's cells
  and \<^verbatim>\<open>nodeNames\<close> are left out: no modelled handler touches them.
\<close>

record DragInfo =
  draggedNodeId :: "string option"
  overNodeId :: "string option"
  draggedHasChildren :: "bool option"

record PayoutTreeState =
  developerPayout :: real
  nodeValues :: "string \<rightharpoonup> NodeValue"
  childOrders :: "string \<rightharpoonup> string list"
  activeNodeId :: string
  showTreeView :: bool
  dragInfo :: "DragInfo option"
  projectLeadsTotal :: "string \<rightharpoonup> real"
  dynamicChildren :: "(string \<times> string list) list"
  isProjectLeadsModalOpen :: bool
  projectLeadsModalValue :: string
  pendingProjectLeadsNode :: "string option"

text \<open>
  The number of parent references above an id, the measure under which the recursion of
  the resolver goes down.
\<close>

fun chainLength :: "nat \<Rightarrow> string \<Rightarrow> nat" where
  "chainLength 0 k = 0"
| "chainLength (Suc n) k = (case parentMap k of None \<Rightarrow> 0 | Some p \<Rightarrow> Suc (chainLength n p))"

definition depth :: "string \<Rightarrow> nat" where
  "depth k = (if isDynamicChild k then 8 else chainLength 8 k)"

lemma parentMap_eq:
  "parentMap = [''directIcb'' \<mapsto> ''developerPayout'', ''taggerCombined'' \<mapsto> ''developerPayout'',
     ''eraAgency'' \<mapsto> ''developerPayout'', ''ecb'' \<mapsto> ''directIcb'', ''icb'' \<mapsto> ''directIcb'',
     ''taggerKw'' \<mapsto> ''taggerFee'', ''taggerEra'' \<mapsto> ''taggerFee'',
     ''taggerFee'' \<mapsto> ''taggerCombined'', ''taggerIncentive'' \<mapsto> ''taggerCombined'',
     ''taggerIncentiveSpecialist'' \<mapsto> ''taggerIncentive'', ''taggerIncentiveEra'' \<mapsto> ''taggerIncentive'',
     ''projectSpecialist'' \<mapsto> ''taggerKw'', ''newLaunchTeam'' \<mapsto> ''taggerKw'', ''kwHq'' \<mapsto> ''taggerKw'',
     ''referralAgent'' \<mapsto> ''referralFee'', ''referralEra'' \<mapsto> ''referralFee'',
     ''overrideManager'' \<mapsto> ''overrideCommission'', ''overrideTeam'' \<mapsto> ''overrideCommission'',
     ''projectDirector'' \<mapsto> ''newLaunchTeam'', ''projectLeads'' \<mapsto> ''newLaunchTeam'',
     ''shirlyn'' \<mapsto> ''projectLeads'', ''elizabeth'' \<mapsto> ''projectLeads'',
     ''surya'' \<mapsto> ''projectLeads'', ''benjamin'' \<mapsto> ''projectLeads'']"
  by (simp add: parentMap_def buildParentMap_def payoutNodes_def template_def childIdsOf_def)



definition parentPairs :: "(string \<times> string) list" where
  "parentPairs = [(''directIcb'', ''developerPayout''), (''taggerCombined'', ''developerPayout''),
     (''eraAgency'', ''developerPayout''), (''ecb'', ''directIcb''), (''icb'', ''directIcb''),
     (''taggerKw'', ''taggerFee''), (''taggerEra'', ''taggerFee''),
     (''taggerFee'', ''taggerCombined''), (''taggerIncentive'', ''taggerCombined''),
     (''taggerIncentiveSpecialist'', ''taggerIncentive''), (''taggerIncentiveEra'', ''taggerIncentive''),
     (''projectSpecialist'', ''taggerKw''), (''newLaunchTeam'', ''taggerKw''), (''kwHq'', ''taggerKw''),
     (''referralAgent'', ''referralFee''), (''referralEra'', ''referralFee''),
     (''overrideManager'', ''overrideCommission''), (''overrideTeam'', ''overrideCommission''),
     (''projectDirector'', ''newLaunchTeam''), (''projectLeads'', ''newLaunchTeam''),
     (''shirlyn'', ''projectLeads''), (''elizabeth'', ''projectLeads''),
     (''surya'', ''projectLeads''), (''benjamin'', ''projectLeads'')]"

lemma parentMap_pairs: "parentMap = map_of (rev parentPairs)"
  by (simp add: parentMap_eq parentPairs_def)

lemma parentMap_SomeD: "parentMap k = Some p \<Longrightarrow> (k, p) \<in> set parentPairs"
  unfolding parentMap_pairs by (drule map_of_SomeD) simp


lemma depth_values:
  "depth ''developerPayout'' = 0" "depth ''directIcb'' = 1" "depth ''taggerCombined'' = 1"
  "depth ''eraAgency'' = 1" "depth ''ecb'' = 2" "depth ''icb'' = 2"
  "depth ''taggerFee'' = 2" "depth ''taggerIncentive'' = 2" "depth ''taggerKw'' = 3"
  "depth ''taggerEra'' = 3" "depth ''taggerIncentiveSpecialist'' = 3"
  "depth ''taggerIncentiveEra'' = 3" "depth ''projectSpecialist'' = 4"
  "depth ''newLaunchTeam'' = 4" "depth ''kwHq'' = 4" "depth ''projectDirector'' = 5"
  "depth ''projectLeads'' = 5" "depth ''shirlyn'' = 6" "depth ''elizabeth'' = 6"
  "depth ''surya'' = 6" "depth ''benjamin'' = 6" "depth ''referralFee'' = 0"
  "depth ''overrideCommission'' = 0" "depth ''referralAgent'' = 1" "depth ''referralEra'' = 1"
  "depth ''overrideManager'' = 1" "depth ''overrideTeam'' = 1"
  by (simp_all add: depth_def isDynamicChild_def parentMap_eq eval_nat_numeral)

lemma parentMap_depth: "parentMap k = Some p \<Longrightarrow> \<not> isDynamicChild k \<Longrightarrow> depth p < depth k"
  by (drule parentMap_SomeD) (auto simp: parentPairs_def depth_values)

lemma dynamicChild_depth: "isDynamicChild k \<Longrightarrow> depth ''projectLeads'' < depth k"
  by (simp add: depth_values) (simp add: depth_def)

text \<open>
  \<^verbatim>\<open>compute(nodeId)\<close> of the \<^verbatim>\<open>nodeAmounts\<close> memo of \<^verbatim>\<open>PayoutTree\<close>, with the table
  \<^verbatim>\<open>amounts\<close> passed explicitly and returned updated; \<open>st\<close> is the component state
  the closure reads.  It has no cycle check: it returns because \<^verbatim>\<open>parentMap\<close> is the
  parent relation of the fixed schema.
\<close>

function compute_payout ::
  "PayoutTreeState \<Rightarrow> string \<Rightarrow> (string \<rightharpoonup> real) \<Rightarrow> real \<times> (string \<rightharpoonup> real)"
where
  "compute_payout st nodeId amounts =
     (case amounts nodeId of
        Some a \<Rightarrow> (a, amounts)
      | None \<Rightarrow>
          if isDynamicChild nodeId then
            (case compute_payout st ''projectLeads'' amounts of
               (parentAmount, amounts') \<Rightarrow>
                 (round2 (fixedOf (nodeValues st) nodeId),
                  amounts'(nodeId \<mapsto> round2 (fixedOf (nodeValues st) nodeId))))
          else
            (case parentMap nodeId of
               None \<Rightarrow> (0, amounts(nodeId \<mapsto> 0))
             | Some parent \<Rightarrow>
                 if parent = [] then (0, amounts(nodeId \<mapsto> 0))
                 else
                   (case compute_payout st parent amounts of
                      (parentAmount, amounts') \<Rightarrow>
                        if nodeId = ''taggerFee'' \<and> parent = ''taggerCombined'' then
                          (round2 (developerPayout st * percentOf (nodeValues st) nodeId
                                   + fixedOf (nodeValues st) nodeId),
                           amounts'(nodeId \<mapsto>
                             round2 (developerPayout st * percentOf (nodeValues st) nodeId
                                     + fixedOf (nodeValues st) nodeId)))
                        else
                          (round2 (parentAmount * percentOf (nodeValues st) nodeId
                                   + fixedOf (nodeValues st) nodeId),
                           amounts'(nodeId \<mapsto>
                             round2 (parentAmount * percentOf (nodeValues st) nodeId
                                     + fixedOf (nodeValues st) nodeId))))))"
  by pat_completeness auto
termination
proof (relation "measure (\<lambda>(st, nodeId, amounts). depth nodeId)")
  show "wf (measure (\<lambda>(st, nodeId, amounts). depth nodeId))"
    by simp
next
  fix st :: PayoutTreeState and nodeId :: string and amounts :: "string \<rightharpoonup> real"
  assume "isDynamicChild nodeId"
  then show "((st, ''projectLeads'', amounts), (st, nodeId, amounts))
             \<in> measure (\<lambda>(st, nodeId, amounts). depth nodeId)"
    by (simp add: dynamicChild_depth)
next
  fix st :: PayoutTreeState and nodeId :: string and amounts :: "string \<rightharpoonup> real"
    and parent :: string
  assume "\<not> isDynamicChild nodeId" and "parentMap nodeId = Some parent"
  then show "((st, parent, amounts), (st, nodeId, amounts))
             \<in> measure (\<lambda>(st, nodeId, amounts). depth nodeId)"
    by (simp add: parentMap_depth)
qed

declare compute_payout.simps [simp del]

text \<open>
  The \<^verbatim>\<open>nodeAmounts\<close> memo: the table starts with the root at \<^verbatim>\<open>developerPayout\<close>;
  \<^verbatim>\<open>compute\<close> runs over \<^verbatim>\<open>Object.keys(payoutNodes)\<close> and then over every list of
  \<^verbatim>\<open>dynamicChildren\<close>.
\<close>

definition computeKeys :: "PayoutTreeState \<Rightarrow> string list \<Rightarrow> (string \<rightharpoonup> real) \<Rightarrow> (string \<rightharpoonup> real)" where
  "computeKeys st keys amounts = fold (\<lambda>nodeId amounts. snd (compute_payout st nodeId amounts)) keys amounts"

definition nodeAmounts :: "PayoutTreeState \<Rightarrow> (string \<rightharpoonup> real)" where
  "nodeAmounts st =
     computeKeys st (concat (map snd (dynamicChildren st)))
       (computeKeys st (map fst payoutNodes) [rootNodeId \<mapsto> developerPayout st])"

text \<open>\<^verbatim>\<open>nodeAmounts[childId] ?? 0\<close>\<close>

definition amountOr0 :: "(string \<rightharpoonup> real) \<Rightarrow> string \<Rightarrow> real" where
  "amountOr0 amounts nodeId = (case amounts nodeId of None \<Rightarrow> 0 | Some a \<Rightarrow> a)"

text \<open>
  \<^verbatim>\<open>getDisplayAmount\<close> of \<^verbatim>\<open>PayoutTree\<close>; the memo table and the payout it closes over
  are arguments.
\<close>

definition getDisplayAmount :: "(string \<rightharpoonup> real) \<Rightarrow> real \<Rightarrow> string \<Rightarrow> real" where
  "getDisplayAmount amounts payout nodeId =
     (case map_of payoutNodes nodeId of
        Some t \<Rightarrow>
          if kind t = Some Group then
            foldl (\<lambda>sum childId. sum + amountOr0 amounts childId) 0 (childIdsOf t)
          else (case amounts nodeId of
                  Some a \<Rightarrow> a
                | None \<Rightarrow> if nodeId = rootNodeId then payout else 0)
      | None \<Rightarrow>
          (case amounts nodeId of
             Some a \<Rightarrow> a
           | None \<Rightarrow> if nodeId = rootNodeId then payout else 0))"

text \<open>
  \<^verbatim>\<open>getDisplayAmount\<close> of \<^verbatim>\<open>CommissionFlowDiagram\<close>: after the group case it sums the
  dynamic children of a node that has an entry in \<^verbatim>\<open>dynamicChildren\<close>.
\<close>

definition getDisplayAmount_diagram ::
  "(string \<rightharpoonup> real) \<Rightarrow> real \<Rightarrow> (string \<times> string list) list \<Rightarrow> string \<Rightarrow> real"
where
  "getDisplayAmount_diagram amounts payout dynChildren nodeId =
     (if (case map_of payoutNodes nodeId of Some t \<Rightarrow> kind t = Some Group | None \<Rightarrow> False) then
        foldl (\<lambda>sum childId. sum + amountOr0 amounts childId) 0
          (childIdsOf (the (map_of payoutNodes nodeId)))
      else
        (case map_of dynChildren nodeId of
           Some children \<Rightarrow> foldl (\<lambda>sum childId. sum + amountOr0 amounts childId) 0 children
         | None \<Rightarrow>
             (case amounts nodeId of
                Some a \<Rightarrow> a
              | None \<Rightarrow> if nodeId = rootNodeId then payout else 0)))"

text \<open>
  What a memo entry \<open>v\<close> for id \<open>k\<close> is, in terms of the other entries of the table.
\<close>

definition settled_payout ::
  "PayoutTreeState \<Rightarrow> (string \<rightharpoonup> real) \<Rightarrow> string \<Rightarrow> real \<Rightarrow> bool"
where
  "settled_payout st amounts k v =
     (if k = rootNodeId then v = developerPayout st
      else if isDynamicChild k then v = round2 (fixedOf (nodeValues st) k)
      else if \<not> truthy (parentMap k) then v = 0
      else if k = ''taggerFee'' \<and> parentMap k = Some ''taggerCombined'' then
        v = round2 (developerPayout st * percentOf (nodeValues st) k + fixedOf (nodeValues st) k)
      else (\<exists>pv. amounts (the (parentMap k)) = Some pv \<and>
              v = round2 (pv * percentOf (nodeValues st) k + fixedOf (nodeValues st) k)))"

text \<open>
  \<^verbatim>\<open>CommissionFlowData\<close>, the data \<^verbatim>\<open>CommissionFlowDiagram\<close> is given and the canvas
  page decodes from its \<^verbatim>\<open>data\<close> URL parameter (or reads from local storage) and passes
  to the canvas as \<^verbatim>\<open>initialData\<close>.  \<^verbatim>\<open>nodeNames\<close> and \<^verbatim>\<open>projectLeadsTotal\<close> only
  drive the display and are left out.
\<close>

record CommissionFlowData =
  flow_developerPayout :: real
  flow_nodeValues :: "string \<rightharpoonup> NodeValue"
  flow_dynamicChildren :: "(string \<times> string list) list"

text \<open>
  \<^verbatim>\<open>compute(nodeId)\<close> of the \<^verbatim>\<open>nodeAmounts\<close> memo of \<^verbatim>\<open>CommissionFlowDiagram\<close>; the
  canvas has the same closure where it initialises its nodes from \<^verbatim>\<open>initialData\<close>.
  Unlike the closure of \<^verbatim>\<open>PayoutTree\<close> it does not resolve \<^verbatim>\<open>projectLeads\<close> before
  a dynamic child.
\<close>

function compute_diagram ::
  "CommissionFlowData \<Rightarrow> string \<Rightarrow> (string \<rightharpoonup> real) \<Rightarrow> real \<times> (string \<rightharpoonup> real)"
where
  "compute_diagram d nodeId amounts =
     (case amounts nodeId of
        Some a \<Rightarrow> (a, amounts)
      | None \<Rightarrow>
          if isDynamicChild nodeId then
            (round2 (fixedOf (flow_nodeValues d) nodeId),
             amounts(nodeId \<mapsto> round2 (fixedOf (flow_nodeValues d) nodeId)))
          else
            (case parentMap nodeId of
               None \<Rightarrow> (0, amounts(nodeId \<mapsto> 0))
             | Some parent \<Rightarrow>
                 if parent = [] then (0, amounts(nodeId \<mapsto> 0))
                 else
                   (case compute_diagram d parent amounts of
                      (parentAmount, amounts') \<Rightarrow>
                        if nodeId = ''taggerFee'' \<and> parent = ''taggerCombined'' then
                          (round2 (flow_developerPayout d * percentOf (flow_nodeValues d) nodeId
                                   + fixedOf (flow_nodeValues d) nodeId),
                           amounts'(nodeId \<mapsto>
                             round2 (flow_developerPayout d * percentOf (flow_nodeValues d) nodeId
                                     + fixedOf (flow_nodeValues d) nodeId)))
                        else
                          (round2 (parentAmount * percentOf (flow_nodeValues d) nodeId
                                   + fixedOf (flow_nodeValues d) nodeId),
                           amounts'(nodeId \<mapsto>
                             round2 (parentAmount * percentOf (flow_nodeValues d) nodeId
                                     + fixedOf (flow_nodeValues d) nodeId))))))"
  by pat_completeness auto
termination
proof (relation "measure (\<lambda>(d, nodeId, amounts). depth nodeId)")
  show "wf (measure (\<lambda>(d, nodeId, amounts). depth nodeId))"
    by simp
next
  fix d :: CommissionFlowData and nodeId :: string and amounts :: "string \<rightharpoonup> real"
    and parent :: string
  assume "\<not> isDynamicChild nodeId" and "parentMap nodeId = Some parent"
  then show "((d, parent, amounts), (d, nodeId, amounts))
             \<in> measure (\<lambda>(d, nodeId, amounts). depth nodeId)"
    by (simp add: parentMap_depth)
qed

declare compute_diagram.simps [simp del]

definition computeKeys_diagram ::
  "CommissionFlowData \<Rightarrow> string list \<Rightarrow> (string \<rightharpoonup> real) \<Rightarrow> (string \<rightharpoonup> real)"
where
  "computeKeys_diagram d keys amounts =
     fold (\<lambda>nodeId amounts. snd (compute_diagram d nodeId amounts)) keys amounts"

definition nodeAmounts_diagram :: "CommissionFlowData \<Rightarrow> (string \<rightharpoonup> real)" where
  "nodeAmounts_diagram d =
     computeKeys_diagram d (concat (map snd (flow_dynamicChildren d)))
       (computeKeys_diagram d (map fst payoutNodes) [rootNodeId \<mapsto> flow_developerPayout d])"

section \<open>The template-driven tree: handlers\<close>

text \<open>
  \<^verbatim>\<open>buildInitialValues\<close>, \<^verbatim>\<open>buildInitialOrders\<close> and the initial \<^verbatim>\<open>useState\<close> values.
\<close>

definition buildInitialValues :: "string \<rightharpoonup> NodeValue" where
  "buildInitialValues =
     fold (\<lambda>node result. result(tmpl_id node \<mapsto>
             \<lparr>percent = (case defaultPercent node of None \<Rightarrow> 0 | Some p \<Rightarrow> p),
              fixed = (case defaultFixed node of None \<Rightarrow> 0 | Some f \<Rightarrow> f)\<rparr>))
       (map snd payoutNodes) Map.empty"

definition buildInitialOrders :: "string \<rightharpoonup> string list" where
  "buildInitialOrders =
     fold (\<lambda>node entries. if childIdsOf node \<noteq> [] then entries(tmpl_id node \<mapsto> childIdsOf node)
                            else entries)
       (map snd payoutNodes) Map.empty"

definition initialState :: PayoutTreeState where
  "initialState = \<lparr>developerPayout = 0, nodeValues = buildInitialValues,
     childOrders = buildInitialOrders, activeNodeId = rootNodeId, showTreeView = False,
     dragInfo = None, projectLeadsTotal = Map.empty, dynamicChildren = [],
     isProjectLeadsModalOpen = False, projectLeadsModalValue = [],
     pendingProjectLeadsNode = None\<rparr>"

text \<open>\<^verbatim>\<open>Array.prototype.indexOf\<close>, with \<open>None\<close> for \<open>-1\<close>.\<close>

fun indexOf :: "'a list \<Rightarrow> 'a \<Rightarrow> nat option" where
  "indexOf [] x = None"
| "indexOf (y # ys) x = (if y = x then Some 0 else map_option Suc (indexOf ys x))"

text \<open>
  \<^verbatim>\<open>arrayMove\<close> of the drag-and-drop library (not part of the repository): the element
  at \<open>from\<close> is taken out and put back at \<open>to\<close>.  Both indices come from \<open>indexOf\<close>.
\<close>

definition arrayMove :: "'a list \<Rightarrow> nat \<Rightarrow> nat \<Rightarrow> 'a list" where
  "arrayMove xs from to =
     (let rest = take from xs @ drop (Suc from) xs
      in take to rest @ (xs ! from) # drop to rest)"

text \<open>The parts of a \<^verbatim>\<open>DragEndEvent\<close> that \<^verbatim>\<open>handleDragEnd\<close> reads.\<close>

record DragTarget =
  target_id :: string
  target_parentId :: "string option"

record DragEndEvent =
  active :: DragTarget
  over :: "DragTarget option"

text \<open>\<^verbatim>\<open>handleDragEnd\<close> of \<^verbatim>\<open>PayoutTree\<close>; the state setters become record updates.\<close>

definition handleDragEnd :: "DragEndEvent \<Rightarrow> PayoutTreeState \<Rightarrow> PayoutTreeState" where
  "handleDragEnd event st =
     (let st1 = st\<lparr>dragInfo := None\<rparr> in
      case over event of
        None \<Rightarrow> st1
      | Some ov \<Rightarrow>
          let dragged = target_id (active event);
              overId = target_id ov;
              draggedParentId = target_parentId (active event)
          in
          if overId = activeNodeId st \<and> draggedParentId = Some (activeNodeId st) then
            (if dragged = ''projectLeads'' \<and>
                (case projectLeadsTotal st dragged of None \<Rightarrow> True | Some t \<Rightarrow> t = 0)
             then st1\<lparr>pendingProjectLeadsNode := Some dragged, projectLeadsModalValue := [],
                       isProjectLeadsModalOpen := True\<rparr>
             else if (case map_of payoutNodes dragged of
                        None \<Rightarrow> False | Some t \<Rightarrow> childIdsOf t \<noteq> [])
                     \<or> map_of (dynamicChildren st) dragged \<noteq> None
             then st1\<lparr>activeNodeId := dragged, showTreeView := False\<rparr>
             else st1)
          else if \<not> truthy draggedParentId \<or> draggedParentId \<noteq> target_parentId ov
                  \<or> draggedParentId \<noteq> Some (activeNodeId st) then st1
          else
            (case childOrders st (the draggedParentId) of
               None \<Rightarrow> st1
             | Some currentOrder \<Rightarrow>
                 (case indexOf currentOrder dragged of
                    None \<Rightarrow> st1
                  | Some oldIndex \<Rightarrow>
                      (case indexOf currentOrder overId of
                         None \<Rightarrow> st1
                       | Some newIndex \<Rightarrow>
                           st1\<lparr>childOrders := (childOrders st)
                                 (the draggedParentId \<mapsto> arrayMove currentOrder oldIndex newIndex)\<rparr>))))"






section \<open>The free-form canvas: deleting\<close>

record CanvasState =
  nodes :: "FlowchartNode list"
  connections :: "FlowchartConnection list"
  selectedNode :: "string option"

text \<open>\<^verbatim>\<open>handleDeleteNode\<close> and \<^verbatim>\<open>handleDeleteConnection\<close> of the canvas.\<close>

definition handleDeleteNode :: "string \<Rightarrow> CanvasState \<Rightarrow> CanvasState" where
  "handleDeleteNode nodeId st =
     st\<lparr>nodes := filter (\<lambda>n. ident n \<noteq> nodeId) (nodes st),
        connections := filter (\<lambda>c. conn_from c \<noteq> nodeId \<and> conn_to c \<noteq> nodeId) (connections st),
        selectedNode := (if selectedNode st = Some nodeId then None else selectedNode st)\<rparr>"

definition handleDeleteConnection :: "string \<Rightarrow> CanvasState \<Rightarrow> CanvasState" where
  "handleDeleteConnection connectionId st =
     (let st1 =
            (case find (\<lambda>c. conn_id c = connectionId) (connections st) of
               Some connection \<Rightarrow>
                 st\<lparr>nodes := map (\<lambda>node. if ident node = conn_to connection
                                            then node\<lparr>parentId := None\<rparr> else node) (nodes st)\<rparr>
             | None \<Rightarrow> st)
      in st1\<lparr>connections := filter (\<lambda>c. conn_id c \<noteq> connectionId) (connections st1)\<rparr>)"

section \<open>Example states of the tree and the canvas\<close>

text \<open>
  The initial state with a payout of 100000, the group \<^verbatim>\<open>taggerCombined\<close> given values
  of its own, and the incentive set to 450.25.
\<close>

definition groupState :: PayoutTreeState where
  "groupState = initialState\<lparr>developerPayout := 100000,
     nodeValues := buildInitialValues(
       ''taggerCombined'' \<mapsto> \<lparr>percent = 0.1, fixed = 7\<rparr>,
       ''taggerIncentive'' \<mapsto> \<lparr>percent = 0, fixed = 450.25\<rparr>)\<rparr>"

text \<open>
  A payout of 1000000 with the incentive node given a percent of 0.5 and a fixed 2000, as
  commission data can carry it.
\<close>

definition incentiveState :: PayoutTreeState where
  "incentiveState = initialState\<lparr>developerPayout := 1000000,
     nodeValues := buildInitialValues(''taggerIncentive'' \<mapsto> \<lparr>percent = 0.5, fixed = 2000\<rparr>)\<rparr>"

text \<open>A payout of 1000 with a fixed 75 entered on the parentless node \<^verbatim>\<open>referralFee\<close>.\<close>

definition referralState :: PayoutTreeState where
  "referralState = initialState\<lparr>developerPayout := 1000,
     nodeValues := buildInitialValues(''referralFee'' \<mapsto> \<lparr>percent = 0, fixed = 75\<rparr>)\<rparr>"


text \<open>Dropping the first child of the root onto its third child.\<close>

definition reorderEvent :: DragEndEvent where
  "reorderEvent = \<lparr>active = \<lparr>target_id = ''directIcb'', target_parentId = Some ''developerPayout''\<rparr>,
     over = Some \<lparr>target_id = ''eraAgency'', target_parentId = Some ''developerPayout''\<rparr>\<rparr>"

text \<open>A canvas with the example root, its child and the connection between them.\<close>

definition deleteExample :: CanvasState where
  "deleteExample = \<lparr>nodes = [exampleRoot, exampleChild],
     connections = [\<lparr>conn_id = ''conn-root-child'', conn_from = ''root'', conn_to = ''child''\<rparr>],
     selectedNode = None\<rparr>"


text \<open>
  Commission data as the canvas URL can carry it: a payout of 1000000 with the incentive
  node given a percent of 0.5 and a fixed 2000; and a payout of 777777 with one dynamic
  child of \<^verbatim>\<open>projectLeads\<close> given a percent of 0.9 and a fixed 12.347.
\<close>

definition incentiveData :: CommissionFlowData where
  "incentiveData = \<lparr>flow_developerPayout = 1000000,
     flow_nodeValues = buildInitialValues(''taggerIncentive'' \<mapsto> \<lparr>percent = 0.5, fixed = 2000\<rparr>),
     flow_dynamicChildren = []\<rparr>"

definition leadData :: CommissionFlowData where
  "leadData = \<lparr>flow_developerPayout = 777777,
     flow_nodeValues = buildInitialValues(''projectLeads_lead_1'' \<mapsto> \<lparr>percent = 0.9, fixed = 12.347\<rparr>),
     flow_dynamicChildren = [(''projectLeads'', [''projectLeads_lead_1''])]\<rparr>"

text \<open>The state of the tree that holds the same payout, values and dynamic children.\<close>

definition leadTreeState :: PayoutTreeState where
  "leadTreeState = initialState\<lparr>developerPayout := 777777,
     nodeValues := buildInitialValues(''projectLeads_lead_1'' \<mapsto> \<lparr>percent = 0.9, fixed = 12.347\<rparr>),
     dynamicChildren := [(''projectLeads'', [''projectLeads_lead_1''])]\<rparr>"

section \<open>Properties of the free-form engine\<close>

lemma sumValues_sum_list: "sumValues vs = sum_list vs"
proof -
  have "foldl (\<lambda>sum val. sum + val) a vs = a + sum_list vs" for a :: real
    by (induction vs arbitrary: a) simp_all
  then show ?thesis by (simp add: sumValues_def)
qed


lemma proto_inherited: "''__proto__'' \<in> set objectPrototypeNames"
  by (simp add: objectPrototypeNames_def)

lemma store_plain: "k \<notin> set objectPrototypeNames \<Longrightarrow> store amounts k v = amounts(k \<mapsto> v)"
  using proto_inherited by (auto simp: store_def)

lemma readProp_plain: "k \<notin> set objectPrototypeNames \<Longrightarrow> readProp amounts k = amounts k"
  by (simp add: readProp_def split: option.splits)


lemma readProp_None: "readProp amounts k = None \<longleftrightarrow> amounts k = None \<and> k \<notin> set objectPrototypeNames"
  by (simp add: readProp_def split: option.splits)


lemma compute_value:
  "nodeId \<notin> set objectPrototypeNames \<Longrightarrow>
   snd (compute nodeList nodeId path amounts) nodeId = Some (fst (compute nodeList nodeId path amounts))"
  by (subst (1 2) compute.simps)
     (auto simp: store_plain readProp_plain split: option.splits prod.splits)


lemma compute_keeps:
  "k \<notin> path \<Longrightarrow> amounts k = Some v \<Longrightarrow> snd (compute nodeList nodeId path amounts) k = Some v"
proof (induction nodeList nodeId path amounts rule: compute.induct)
  case (1 nodeList nodeId path amounts)
  show ?case
    apply (subst compute.simps)
    using 1
    apply (auto simp: store_def readProp_None split: option.splits prod.splits)
    done
qed



lemma parentOf_Some:
  "parentOf nodeList c = Some k \<longleftrightarrow>
     (\<exists>node. findNode nodeList c = Some node \<and> \<not> noParent node \<and> the (parentId node) = k)"
  by (auto simp: parentOf_def noParent_def split: option.splits)






lemma computeAll_keeps: "amounts k = Some v \<Longrightarrow> computeAll nodeList todo amounts k = Some v"
  by (induction todo arbitrary: amounts) (simp_all add: computeAll_def compute_keeps)

lemma computeAll_defines:
  "node \<in> set todo \<Longrightarrow> ident node \<notin> set objectPrototypeNames \<Longrightarrow>
     \<exists>a. computeAll nodeList todo amounts (ident node) = Some a"
proof (induction todo arbitrary: amounts)
  case Nil
  then show ?case by simp
next
  case (Cons n todo)
  let ?am = "snd (compute nodeList (ident n) {} amounts)"
  have step: "computeAll nodeList (n # todo) amounts = computeAll nodeList todo ?am"
    by (simp add: computeAll_def)
  show ?case
  proof (cases "node = n")
    case True
    have "?am (ident n) = Some (fst (compute nodeList (ident n) {} amounts))"
      using Cons.prems(2) True by (intro compute_value) simp
    then show ?thesis unfolding step True by (blast intro: computeAll_keeps)
  next
    case False
    then have "node \<in> set todo" using Cons.prems by simp
    then show ?thesis unfolding step using Cons.prems(2) by (rule Cons.IH)
  qed
qed


lemma seedRoots_Some:
  "seedRoots nodeList k = Some v \<Longrightarrow>
     \<exists>node\<in>set nodeList. ident node = k \<and> noParent node \<and> v = Num (rootAmount node)"
proof -
  have "fold (\<lambda>node amounts. if noParent node then store amounts (ident node) (Num (rootAmount node))
                              else amounts)
          ns am k = Some v \<Longrightarrow>
        am k = Some v \<or> (\<exists>node\<in>set ns. ident node = k \<and> noParent node \<and> v = Num (rootAmount node))"
    for ns am
    by (induction ns arbitrary: am) (fastforce simp: store_def split: if_splits)+
  from this [of nodeList Map.empty] show "seedRoots nodeList k = Some v \<Longrightarrow> ?thesis"
    by (simp add: seedRoots_def)
qed

lemma findNode_distinct:
  "distinct (map ident nodeList) \<Longrightarrow> node \<in> set nodeList \<Longrightarrow> findNode nodeList (ident node) = Some node"
  unfolding findNode_def by (induction nodeList) (auto simp: image_iff)

lemma seedRoots_root:
  assumes "distinct (map ident nodeList)" "node \<in> set nodeList" "noParent node"
    and "ident node \<noteq> ''__proto__''"
  shows "seedRoots nodeList (ident node) = Some (Num (rootAmount node))"
proof -
  let ?f = "\<lambda>node amounts. if noParent node then store amounts (ident node) (Num (rootAmount node))
                            else amounts"
  have "distinct (map ident ns) \<Longrightarrow> node \<in> set ns \<Longrightarrow>
        fold ?f ns am (ident node) = Some (Num (rootAmount node))" for ns am
  proof (induction ns arbitrary: am)
    case Nil
    then show ?case by simp
  next
    case (Cons n ns)
    have keep: "fold ?f ms am' k = am' k" if "k \<notin> ident ` set ms" for ms am' k
      using that by (induction ms arbitrary: am') (auto simp: store_def)
    show ?case
    proof (cases "node = n")
      case True
      then have "ident node \<notin> ident ` set ns" using Cons.prems(1) by auto
      then show ?thesis using True assms(3,4) by (simp add: keep store_def)
    next
      case False
      then show ?thesis using Cons by auto
    qed
  qed
  from this [OF assms(1,2)] show ?thesis by (simp add: seedRoots_def)
qed



lemma round2_zero: "round2 0 = 0"
  by (simp add: round2_def)

lemma findNode_set: "findNode nodeList k = Some node \<Longrightarrow> node \<in> set nodeList \<and> ident node = k"
  by (auto simp: findNode_def find_Some_iff)

lemma zeroCycle_parent:
  assumes "zeroCycle nodeList k" "findNode nodeList k = Some node" "\<not> noParent node"
  shows "zeroCycle nodeList (the (parentId node))" and "calculated node (Num 0) = Num 0"
proof -
  let ?R = "parentRel nodeList"
  let ?p = "the (parentId node)"
  have edge: "(k, ?p) \<in> ?R" using assms(2,3) by (simp add: parentRel_def parentOf_Some)
  from assms(1) have "(k, k) \<in> ?R\<^sup>+" by (simp add: zeroCycle_def)
  then obtain y where y: "(k, y) \<in> ?R" "(y, k) \<in> ?R\<^sup>*"
    by (auto dest: tranclD)
  then have "y = ?p" using edge by (simp add: parentRel_def)
  then have ret: "(?p, k) \<in> ?R\<^sup>*" using y by simp
  then have "(?p, ?p) \<in> ?R\<^sup>+" using edge by auto
  moreover have "(k, c) \<in> ?R\<^sup>*" if "(?p, c) \<in> ?R\<^sup>*" for c
    using that edge by (auto intro: converse_rtrancl_into_rtrancl)
  ultimately show "zeroCycle nodeList ?p" using assms(1) by (auto simp: zeroCycle_def)
  have "node \<in> set nodeList" "ident node = k" using findNode_set [OF assms(2)] by auto
  then show "calculated node (Num 0) = Num 0" using assms(1) by (auto simp: zeroCycle_def)
qed

lemma zeroCycle_has_parent:
  assumes "zeroCycle nodeList k"
  shows "\<exists>node. findNode nodeList k = Some node \<and> \<not> noParent node"
proof -
  from assms have "(k, k) \<in> (parentRel nodeList)\<^sup>+" by (simp add: zeroCycle_def)
  then obtain y where "(k, y) \<in> parentRel nodeList" by (auto dest: tranclD)
  then show ?thesis by (auto simp: parentRel_def parentOf_Some)
qed

lemma zeroCycle_plain:
  assumes "zeroCycle nodeList k"
  shows "k \<notin> set objectPrototypeNames"
proof -
  obtain node where "findNode nodeList k = Some node"
    using zeroCycle_has_parent [OF assms] by blast
  then have "node \<in> set nodeList" "ident node = k" using findNode_set by auto
  then show ?thesis using assms by (auto simp: zeroCycle_def)
qed

lemma compute_zero:
  assumes "\<forall>c v. amounts c = Some v \<longrightarrow> zeroCycle nodeList c \<longrightarrow> v = Num 0"
    and "snd (compute nodeList nodeId path amounts) c = Some v" and "zeroCycle nodeList c"
  shows "v = Num 0"
  using assms
proof (induction nodeList nodeId path amounts arbitrary: c v rule: compute.induct)
  case (1 nodeList nodeId path amounts)
  note inv = "1.prems"(1) and cval = "1.prems"(2) and cz = "1.prems"(3)
  show ?case
  proof (cases "nodeId \<in> path \<or> readProp amounts nodeId \<noteq> None \<or> findNode nodeList nodeId = None")
    case True
    then show ?thesis using inv cval cz
      by (subst (asm) compute.simps) (auto simp: store_def split: option.splits if_splits)
  next
    case False
    then obtain node where fresh: "nodeId \<notin> path" and unset: "readProp amounts nodeId = None"
      and found: "findNode nodeList nodeId = Some node" by auto
    have plain: "nodeId \<notin> set objectPrototypeNames" using unset by (simp add: readProp_None)
    show ?thesis
    proof (cases "noParent node")
      case True
      then have res: "snd (compute nodeList nodeId path amounts)
          = amounts(nodeId \<mapsto> Num (rootAmountCompute node))"
        using fresh unset found by (subst compute.simps) (simp add: store_plain [OF plain])
      have "c \<noteq> nodeId" using zeroCycle_has_parent [OF cz] found True by auto
      then show ?thesis using inv cval cz unfolding res by simp
    next
      case par: False
      define p where "p = the (parentId node)"
      obtain pa am1 where rec: "compute nodeList p (insert nodeId path) amounts = (pa, am1)"
        by (cases "compute nodeList p (insert nodeId path) amounts")
      have res: "snd (compute nodeList nodeId path amounts)
          = am1(nodeId \<mapsto> onNumber round2 (calculated node pa))"
        using fresh unset found par rec
        by (subst compute.simps) (simp add: p_def store_plain [OF plain])
      have IH: "v' = Num 0" if "am1 c' = Some v'" "zeroCycle nodeList c'" for c' v'
        using "1.IH" [OF fresh unset found par, unfolded p_def [symmetric], OF inv] that rec
        by simp
      show ?thesis
      proof (cases "c = nodeId")
        case True
        then have zc: "zeroCycle nodeList nodeId" using cz by simp
        have zp: "zeroCycle nodeList p" unfolding p_def using zc found par by (rule zeroCycle_parent)
        have "am1 p = Some pa"
          using compute_value [OF zeroCycle_plain [OF zp], of nodeList "insert nodeId path" amounts]
            rec by simp
        then have "pa = Num 0" using zp IH by blast
        moreover have "calculated node (Num 0) = Num 0" using zc found par by (rule zeroCycle_parent)
        ultimately show ?thesis using cval True unfolding res
          by (simp add: round2_zero onNumber_def)
      next
        case False
        then show ?thesis using cval cz IH unfolding res by simp
      qed
    qed
  qed
qed

lemma computeAll_zero:
  assumes "\<forall>c v. amounts c = Some v \<longrightarrow> zeroCycle nodeList c \<longrightarrow> v = Num 0"
    and "computeAll nodeList todo amounts c = Some v" and "zeroCycle nodeList c"
  shows "v = Num 0"
  using assms
proof (induction todo arbitrary: amounts)
  case Nil
  then show ?case by (simp add: computeAll_def)
next
  case (Cons n todo)
  let ?am = "snd (compute nodeList (ident n) {} amounts)"
  have step: "computeAll nodeList (n # todo) amounts = computeAll nodeList todo ?am"
    by (simp add: computeAll_def)
  have "\<forall>c v. ?am c = Some v \<longrightarrow> zeroCycle nodeList c \<longrightarrow> v = Num 0"
    using compute_zero [OF Cons.prems(1)] by blast
  then show ?case using Cons.prems(2,3) unfolding step by (rule Cons.IH)
qed

lemma calculateNodeAmounts_defines:
  "node \<in> set nodeList \<Longrightarrow> ident node \<notin> set objectPrototypeNames \<Longrightarrow>
     \<exists>a. calculateNodeAmounts nodeList (ident node) = Some a"
  unfolding calculateNodeAmounts_def by (rule computeAll_defines)

lemma calculateNodeAmounts_zeroCycle:
  assumes "distinct (map ident nodeList)" "zeroCycle nodeList k"
  shows "calculateNodeAmounts nodeList k = Some (Num 0)"
proof -
  obtain node where n: "findNode nodeList k = Some node" "\<not> noParent node"
    using zeroCycle_has_parent [OF assms(2)] by blast
  then have "node \<in> set nodeList" "ident node = k" using findNode_set by auto
  then obtain a where a: "calculateNodeAmounts nodeList k = Some a"
    using calculateNodeAmounts_defines zeroCycle_plain [OF assms(2)] by blast
  have seed: "\<forall>c v. seedRoots nodeList c = Some v \<longrightarrow> zeroCycle nodeList c \<longrightarrow> v = Num 0"
  proof (intro allI impI)
    fix c v assume "seedRoots nodeList c = Some v" "zeroCycle nodeList c"
    from seedRoots_Some [OF this(1)] obtain m where
      m: "m \<in> set nodeList" "ident m = c" "noParent m" by blast
    then have "findNode nodeList c = Some m" using findNode_distinct [OF assms(1)] by blast
    then show "v = Num 0" using zeroCycle_has_parent [OF \<open>zeroCycle nodeList c\<close>] m by auto
  qed
  have "a = Num 0"
    using computeAll_zero [OF seed _ assms(2)] a unfolding calculateNodeAmounts_def by blast
  then show ?thesis using a by simp
qed

text \<open>The equations that evaluate the engine on a concrete node list.\<close>

lemmas engine_eval = calculateNodeAmounts_def computeAll_def seedRoots_def compute.simps
  findNode_def noParent_def rootAmount_def rootAmountCompute_def hasValues_def sumValues_def
  calculated_def percentTotal_def fixedTotal_def round2_def orZero_def
  readProp_def store_def onNumber_def objectPrototypeNames_def




subsection \<open>Every listed node receives an amount\<close>

text \<open>
  C10 on the code: \<^verbatim>\<open>calculateNodeAmounts\<close> does not return an entry for every node id
  of the list, and not every path of \<^verbatim>\<open>compute\<close> assigns an amount to the id it was
  asked for.  A node with a parent whose id names a property inherited from
  \<^verbatim>\<open>Object.prototype\<close> receives none.  In the list of the example root, the example
  child renamed \<^verbatim>\<open>constructor\<close> and a child of that node, the memo test of
  \<^verbatim>\<open>compute("constructor")\<close> succeeds on the inherited function: the call returns it
  and stores nothing, the returned map has no entry for \<^verbatim>\<open>constructor\<close>, and the node
  below it resolves to \<^verbatim>\<open>NaN\<close>.  Under the id \<^verbatim>\<open>child\<close> the same node resolves to
  150.  Every node whose id is not an inherited name does receive an entry
  (\<open>calculateNodeAmounts_defines\<close>), and so does a parentless node of any id but
  \<^verbatim>\<open>__proto__\<close> (\<open>seedRoots_root\<close>).
\<close>

theorem inherited_id_gets_no_entry:
  "calculateNodeAmounts [exampleRoot, constructorChild, constructorGrandchild] ''root''
     = Some (Num 1000) \<and>
   calculateNodeAmounts [exampleRoot, constructorChild, constructorGrandchild] ''constructor''
     = None \<and>
   compute [exampleRoot, constructorChild, constructorGrandchild] ''constructor'' {}
       (seedRoots [exampleRoot, constructorChild, constructorGrandchild])
     = (ProtoObject, seedRoots [exampleRoot, constructorChild, constructorGrandchild]) \<and>
   calculateNodeAmounts [exampleRoot, constructorChild, constructorGrandchild] ''leaf''
     = Some NaN \<and>
   calculateNodeAmounts [exampleRoot, exampleChild] ''child'' = Some (Num 150)"
  by (simp add: engine_eval exampleRoot_def exampleChild_def constructorChild_def
      constructorGrandchild_def)

subsection \<open>Combined percent and fixed rule\<close>




lemma cycleBoth_parentOf:
  "parentOf cycleBoth ''A'' = Some ''B''" "parentOf cycleBoth ''B'' = Some ''A''"
  by (simp_all add: parentOf_def findNode_def noParent_def cycleBoth_def cycleNode_def)


subsection \<open>Parent cycles\<close>

text \<open>
  C3, as the code has it: resolution is a total function, so it returns on every node
  list, cyclic or not.  A call that re-enters a node on the current path records \<open>0\<close>
  for it and returns \<open>0\<close> to the child that asked.  In a list with unique ids, a node on
  a cycle resolves to \<open>0\<close> when every node of the cycle has a rule that gives \<open>0\<close> at
  parent amount \<open>0\<close> (no fixed part) and an id that is not an inherited name.
\<close>

theorem cycle_without_fixed_part_resolves_to_zero:
  assumes "distinct (map ident nodeList)"
    and "(k, k) \<in> (parentRel nodeList)\<^sup>+"
    and "\<forall>node\<in>set nodeList. (k, ident node) \<in> (parentRel nodeList)\<^sup>* \<longrightarrow>
           calculated node (Num 0) = Num 0 \<and> ident node \<notin> set objectPrototypeNames"
  shows "calculateNodeAmounts nodeList k = Some (Num 0) \<and>
    (\<forall>path amounts. k \<in> path \<longrightarrow> compute nodeList k path amounts = (Num 0, amounts(k \<mapsto> Num 0)))"
proof -
  have z: "zeroCycle nodeList k" using assms(2,3) by (simp add: zeroCycle_def)
  with assms(1) have "calculateNodeAmounts nodeList k = Some (Num 0)"
    by (rule calculateNodeAmounts_zeroCycle)
  moreover have "compute nodeList k path amounts = (Num 0, amounts(k \<mapsto> Num 0))" if "k \<in> path"
    for path amounts using that
    by (subst compute.simps) (simp add: store_plain [OF zeroCycle_plain [OF z]])
  ultimately show ?thesis by blast
qed

lemma cyclePercent_parentOf:
  "parentOf cyclePercent ''A'' = Some ''B''" "parentOf cyclePercent ''B'' = Some ''A''"
  by (simp_all add: parentOf_def findNode_def noParent_def cyclePercent_def cycleNode_def)

theorem cycle_without_fixed_part_witness:
  "(''A'', ''A'') \<in> (parentRel cyclePercent)\<^sup>+ \<and> (''B'', ''B'') \<in> (parentRel cyclePercent)\<^sup>+ \<and>
   calculateNodeAmounts cyclePercent ''A'' = Some (Num 0) \<and>
   calculateNodeAmounts cyclePercent ''B'' = Some (Num 0)"
proof -
  have ab: "(''A'', ''B'') \<in> parentRel cyclePercent" and ba: "(''B'', ''A'') \<in> parentRel cyclePercent"
    using cyclePercent_parentOf by (simp_all add: parentRel_def)
  have a: "(''A'', ''A'') \<in> (parentRel cyclePercent)\<^sup>+" using ab ba by (rule trancl_into_trancl [OF r_into_trancl])
  have b: "(''B'', ''B'') \<in> (parentRel cyclePercent)\<^sup>+" using ba ab by (rule trancl_into_trancl [OF r_into_trancl])
  have d: "distinct (map ident cyclePercent)"
    by (simp add: cyclePercent_def cycleNode_def)
  have z: "\<forall>node\<in>set cyclePercent. (k, ident node) \<in> (parentRel cyclePercent)\<^sup>* \<longrightarrow>
      calculated node (Num 0) = Num 0 \<and> ident node \<notin> set objectPrototypeNames" for k
    by (simp add: cyclePercent_def cycleNode_def calculated_def percentTotal_def fixedTotal_def
        onNumber_def objectPrototypeNames_def)
  show ?thesis
    using cycle_without_fixed_part_resolves_to_zero [OF d a z]
      cycle_without_fixed_part_resolves_to_zero [OF d b z] a b by simp
qed

lemma cycleFixed_parentOf:
  "parentOf cycleFixed ''A'' = Some ''B''" "parentOf cycleFixed ''B'' = Some ''A''"
  by (simp_all add: parentOf_def findNode_def noParent_def cycleFixed_def cycleNode_def)

text \<open>
  C3 as stated fails when a cycle node has a fixed part: in \<open>cycleFixed\<close> the node
  \<open>B\<close> keeps its fixed 20 and \<open>A\<close>, the node that was re-entered, ends with 50
  percent of that, 10.
\<close>

theorem cycle_with_fixed_part_counterexample:
  "parentOf cycleFixed ''A'' = Some ''B'' \<and> parentOf cycleFixed ''B'' = Some ''A'' \<and>
   calculateNodeAmounts cycleFixed ''A'' = Some (Num 10) \<and>
   calculateNodeAmounts cycleFixed ''B'' = Some (Num 20)"
  by (simp add: cycleFixed_parentOf) (simp add: engine_eval cycleFixed_def cycleNode_def)

section \<open>Properties of the template-driven resolver\<close>

lemma compute_payout_value:
  "snd (compute_payout st nodeId amounts) nodeId = Some (fst (compute_payout st nodeId amounts))"
  by (subst (1 2) compute_payout.simps) (simp split: option.splits prod.splits)

lemma compute_payout_keeps:
  "amounts c = Some v \<Longrightarrow> snd (compute_payout st nodeId amounts) c = Some v"
proof (induction st nodeId amounts rule: compute_payout.induct)
  case (1 st nodeId amounts)
  show ?case
    apply (subst compute_payout.simps)
    using 1
    apply (auto split: option.splits prod.splits)
    done
qed

text \<open>The resolver reads the state only through the payout and the node values.\<close>

lemma compute_payout_cong:
  "developerPayout st' = developerPayout st \<Longrightarrow> nodeValues st' = nodeValues st \<Longrightarrow>
     compute_payout st' nodeId amounts = compute_payout st nodeId amounts"
proof (induction st nodeId amounts rule: compute_payout.induct)
  case (1 st nodeId amounts)
  show ?case
    apply (subst (1 2) compute_payout.simps)
    using 1
    apply (auto split: option.splits prod.splits)
    done
qed

lemma settled_payout_mono:
  assumes "settled_payout st amounts k v" and "\<And>c a. amounts c = Some a \<Longrightarrow> amounts' c = Some a"
  shows "settled_payout st amounts' k v"
  using assms by (auto simp: settled_payout_def split: if_splits)

lemma compute_payout_written:
  "snd (compute_payout st nodeId amounts) c = Some v \<Longrightarrow>
     amounts c \<noteq> None \<or> depth c \<le> depth nodeId"
proof (induction st nodeId amounts arbitrary: v rule: compute_payout.induct)
  case (1 st nodeId amounts)
  show ?case
  proof (cases "amounts nodeId")
    case (Some a)
    then have "snd (compute_payout st nodeId amounts) = amounts"
      by (subst compute_payout.simps) simp
    then show ?thesis using "1.prems" by simp
  next
    case unset: None
    show ?thesis
    proof (cases "isDynamicChild nodeId")
      case dyn: True
      obtain pa am1 where rec: "compute_payout st ''projectLeads'' amounts = (pa, am1)"
        by (cases "compute_payout st ''projectLeads'' amounts")
      have res: "snd (compute_payout st nodeId amounts)
          = am1(nodeId \<mapsto> round2 (fixedOf (nodeValues st) nodeId))"
        using unset dyn rec by (subst compute_payout.simps) simp
      show ?thesis
      proof (cases "c = nodeId")
        case True
        then show ?thesis by simp
      next
        case False
        then have "snd (compute_payout st ''projectLeads'' amounts) c = Some v"
          using "1.prems" rec unfolding res by simp
        from "1.IH"(1) [OF unset dyn this] dynamicChild_depth [OF dyn]
        show ?thesis by auto
      qed
    next
      case nodyn: False
      show ?thesis
      proof (cases "truthy (parentMap nodeId)")
        case False
        then have "snd (compute_payout st nodeId amounts) = amounts(nodeId \<mapsto> 0)"
          using unset nodyn
          by (subst compute_payout.simps) (simp add: truthy_def split: option.splits)
        then show ?thesis using "1.prems" by (cases "c = nodeId") simp_all
      next
        case True
        then obtain p where p: "parentMap nodeId = Some p" "p \<noteq> []"
          by (auto simp: truthy_def split: option.splits)
        obtain pa am1 where rec: "compute_payout st p amounts = (pa, am1)"
          by (cases "compute_payout st p amounts")
        have "\<exists>w. snd (compute_payout st nodeId amounts) = am1(nodeId \<mapsto> w)"
          using unset nodyn p rec by (subst compute_payout.simps) auto
        then obtain w where res: "snd (compute_payout st nodeId amounts) = am1(nodeId \<mapsto> w)" ..
        show ?thesis
        proof (cases "c = nodeId")
          case True
          then show ?thesis by simp
        next
          case False
          then have "snd (compute_payout st p amounts) c = Some v"
            using "1.prems" rec unfolding res by simp
          from "1.IH"(2) [OF unset nodyn p this] parentMap_depth [OF p(1) nodyn]
          show ?thesis by auto
        qed
      qed
    qed
  qed
qed

lemma compute_payout_fresh:
  assumes "amounts nodeId = None" and "depth p < depth nodeId"
  shows "snd (compute_payout st p amounts) nodeId = None"
proof (rule ccontr)
  assume "snd (compute_payout st p amounts) nodeId \<noteq> None"
  then obtain v where "snd (compute_payout st p amounts) nodeId = Some v" by auto
  from compute_payout_written [OF this] assms show False by auto
qed

lemma settled_payout_extend:
  assumes "am1 nodeId = None"
    and "\<And>c' v'. am1 c' = Some v' \<Longrightarrow> settled_payout st am1 c' v'"
    and "settled_payout st (am1(nodeId \<mapsto> w)) nodeId w"
    and "(am1(nodeId \<mapsto> w)) c = Some v"
  shows "settled_payout st (am1(nodeId \<mapsto> w)) c v"
proof (cases "c = nodeId")
  case True
  then show ?thesis using assms(3,4) by simp
next
  case False
  then have "settled_payout st am1 c v" using assms(2,4) by simp
  then show ?thesis
    by (rule settled_payout_mono) (use assms(1) in auto)
qed

lemma compute_payout_settled:
  assumes "amounts rootNodeId = Some (developerPayout st)"
    and "\<forall>c v. amounts c = Some v \<longrightarrow> settled_payout st amounts c v"
    and "snd (compute_payout st nodeId amounts) c = Some v"
  shows "settled_payout st (snd (compute_payout st nodeId amounts)) c v"
  using assms
proof (induction st nodeId amounts arbitrary: c v rule: compute_payout.induct)
  case (1 st nodeId amounts)
  note root = "1.prems"(1) and inv = "1.prems"(2) and cval = "1.prems"(3)
  show ?case
  proof (cases "amounts nodeId")
    case (Some a)
    then have "snd (compute_payout st nodeId amounts) = amounts"
      by (subst compute_payout.simps) simp
    then show ?thesis using inv cval by simp
  next
    case unset: None
    then have notroot: "nodeId \<noteq> rootNodeId" using root by auto
    show ?thesis
    proof (cases "isDynamicChild nodeId")
      case dyn: True
      obtain pa am1 where rec: "compute_payout st ''projectLeads'' amounts = (pa, am1)"
        by (cases "compute_payout st ''projectLeads'' amounts")
      have res: "snd (compute_payout st nodeId amounts)
          = am1(nodeId \<mapsto> round2 (fixedOf (nodeValues st) nodeId))"
        using unset dyn rec by (subst compute_payout.simps) simp
      have fresh: "am1 nodeId = None"
        using compute_payout_fresh [where st = st and p = "''projectLeads''" and amounts = amounts and nodeId = nodeId,
              OF unset dynamicChild_depth [OF dyn]]
          rec by simp
      have IH: "settled_payout st am1 c' v'" if "am1 c' = Some v'" for c' v'
        using "1.IH"(1) [OF unset dyn root inv] that rec by simp
      have self: "settled_payout st (am1(nodeId \<mapsto> round2 (fixedOf (nodeValues st) nodeId)))
          nodeId (round2 (fixedOf (nodeValues st) nodeId))"
        using notroot dyn by (simp add: settled_payout_def)
      show ?thesis unfolding res
        using fresh IH self cval [unfolded res] by (rule settled_payout_extend)
    next
      case nodyn: False
      show ?thesis
      proof (cases "truthy (parentMap nodeId)")
        case False
        then have res: "snd (compute_payout st nodeId amounts) = amounts(nodeId \<mapsto> 0)"
          using unset nodyn
          by (subst compute_payout.simps) (simp add: truthy_def split: option.splits)
        have self: "settled_payout st (amounts(nodeId \<mapsto> 0)) nodeId 0"
          using notroot nodyn False by (simp add: settled_payout_def)
        show ?thesis unfolding res
          using unset _ self cval [unfolded res]
          by (rule settled_payout_extend) (use inv in blast)
      next
        case True
        then obtain p where p: "parentMap nodeId = Some p" "p \<noteq> []"
          by (auto simp: truthy_def split: option.splits)
        obtain pa am1 where rec: "compute_payout st p amounts = (pa, am1)"
          by (cases "compute_payout st p amounts")
        define w where "w =
          (if nodeId = ''taggerFee'' \<and> p = ''taggerCombined'' then
             round2 (developerPayout st * percentOf (nodeValues st) nodeId
                     + fixedOf (nodeValues st) nodeId)
           else round2 (pa * percentOf (nodeValues st) nodeId + fixedOf (nodeValues st) nodeId))"
        have res: "snd (compute_payout st nodeId amounts) = am1(nodeId \<mapsto> w)"
          using unset nodyn p rec by (subst compute_payout.simps) (simp add: w_def)
        have lower: "depth p < depth nodeId" using p(1) nodyn by (rule parentMap_depth)
        have fresh: "am1 nodeId = None"
          using compute_payout_fresh [where st = st and p = p and amounts = amounts and nodeId = nodeId, OF unset lower] rec by simp
        have am1p: "am1 p = Some pa"
          using compute_payout_value [of st p amounts] rec by simp
        have "p \<noteq> nodeId" using lower by auto
        then have "(am1(nodeId \<mapsto> w)) p = Some pa" using am1p by simp
        then have self: "settled_payout st (am1(nodeId \<mapsto> w)) nodeId w"
          using notroot nodyn True p by (auto simp: settled_payout_def w_def)
        have IH: "settled_payout st am1 c' v'" if "am1 c' = Some v'" for c' v'
          using "1.IH"(2) [OF unset nodyn p root inv] that rec by simp
        show ?thesis unfolding res
          using fresh IH self cval [unfolded res] by (rule settled_payout_extend)
      qed
    qed
  qed
qed

lemma computeKeys_keeps: "amounts c = Some v \<Longrightarrow> computeKeys st keys amounts c = Some v"
  by (induction keys arbitrary: amounts) (simp_all add: computeKeys_def compute_payout_keeps)

lemma computeKeys_defines: "k \<in> set keys \<Longrightarrow> \<exists>a. computeKeys st keys amounts k = Some a"
proof (induction keys arbitrary: amounts)
  case Nil
  then show ?case by simp
next
  case (Cons x keys)
  let ?am = "snd (compute_payout st x amounts)"
  have step: "computeKeys st (x # keys) amounts = computeKeys st keys ?am"
    by (simp add: computeKeys_def)
  show ?case
  proof (cases "k = x")
    case True
    have "?am x = Some (fst (compute_payout st x amounts))" by (rule compute_payout_value)
    then show ?thesis unfolding step True by (blast intro: computeKeys_keeps)
  next
    case False
    then have "k \<in> set keys" using Cons.prems by simp
    then show ?thesis unfolding step by (rule Cons.IH)
  qed
qed

lemma computeKeys_settled:
  assumes "amounts rootNodeId = Some (developerPayout st)"
    and "\<forall>c v. amounts c = Some v \<longrightarrow> settled_payout st amounts c v"
  shows "computeKeys st keys amounts rootNodeId = Some (developerPayout st) \<and>
    (\<forall>c v. computeKeys st keys amounts c = Some v
       \<longrightarrow> settled_payout st (computeKeys st keys amounts) c v)"
  using assms
proof (induction keys arbitrary: amounts)
  case Nil
  then show ?case by (simp add: computeKeys_def)
next
  case (Cons x keys)
  let ?am = "snd (compute_payout st x amounts)"
  have step: "computeKeys st (x # keys) amounts = computeKeys st keys ?am"
    by (simp add: computeKeys_def)
  have "?am rootNodeId = Some (developerPayout st)"
    using Cons.prems(1) by (rule compute_payout_keeps)
  moreover have "\<forall>c v. ?am c = Some v \<longrightarrow> settled_payout st ?am c v"
    using compute_payout_settled [OF Cons.prems] by blast
  ultimately show ?case unfolding step by (rule Cons.IH)
qed

lemma nodeAmounts_root: "nodeAmounts st rootNodeId = Some (developerPayout st)"
  by (simp add: nodeAmounts_def computeKeys_keeps)

lemma nodeAmounts_settled:
  assumes "nodeAmounts st c = Some v"
  shows "settled_payout st (nodeAmounts st) c v"
proof -
  let ?a0 = "[rootNodeId \<mapsto> developerPayout st]"
  let ?a1 = "computeKeys st (map fst payoutNodes) ?a0"
  have "\<forall>c v. ?a0 c = Some v \<longrightarrow> settled_payout st ?a0 c v"
    by (simp add: settled_payout_def)
  then have "?a1 rootNodeId = Some (developerPayout st) \<and>
      (\<forall>c v. ?a1 c = Some v \<longrightarrow> settled_payout st ?a1 c v)"
    by (intro computeKeys_settled) simp_all
  then have "\<forall>c v. nodeAmounts st c = Some v \<longrightarrow> settled_payout st (nodeAmounts st) c v"
    unfolding nodeAmounts_def using computeKeys_settled by blast
  then show ?thesis using assms by blast
qed

lemma nodeAmounts_schema: "k \<in> set (map fst payoutNodes) \<Longrightarrow> \<exists>a. nodeAmounts st k = Some a"
  unfolding nodeAmounts_def by (blast dest: computeKeys_defines intro: computeKeys_keeps)

lemma nodeAmounts_dynamic:
  "k \<in> set (concat (map snd (dynamicChildren st))) \<Longrightarrow> \<exists>a. nodeAmounts st k = Some a"
  unfolding nodeAmounts_def by (rule computeKeys_defines)

lemma nodeAmounts_cong:
  assumes "developerPayout st' = developerPayout st" and "nodeValues st' = nodeValues st"
    and "dynamicChildren st' = dynamicChildren st"
  shows "nodeAmounts st' = nodeAmounts st"
proof -
  have "computeKeys st' keys amounts = computeKeys st keys amounts" for keys amounts
    by (induction keys arbitrary: amounts)
       (simp_all add: computeKeys_def compute_payout_cong [OF assms(1,2)])
  then show ?thesis by (simp add: nodeAmounts_def assms)
qed


lemma schema_keys:
  "map fst payoutNodes =
    [''developerPayout'', ''directIcb'', ''ecb'', ''icb'', ''taggerFee'', ''taggerCombined'',
     ''taggerIncentive'', ''taggerKw'', ''taggerEra'', ''taggerIncentiveSpecialist'',
     ''taggerIncentiveEra'', ''eraAgency'', ''referralFee'', ''referralAgent'', ''referralEra'',
     ''overrideCommission'', ''overrideManager'', ''overrideTeam'', ''projectSpecialist'',
     ''newLaunchTeam'', ''kwHq'', ''projectDirector'', ''projectLeads'', ''shirlyn'',
     ''elizabeth'', ''surya'', ''benjamin'']"
  by (simp add: payoutNodes_def template_def)

lemma parentMap_values:
  "parentMap ''taggerFee'' = Some ''taggerCombined''"
  "parentMap ''taggerIncentive'' = Some ''taggerCombined''"
  "parentMap ''taggerCombined'' = Some ''developerPayout''"
  "parentMap ''taggerKw'' = Some ''taggerFee''"
  "parentMap ''newLaunchTeam'' = Some ''taggerKw''"
  "parentMap ''projectLeads'' = Some ''newLaunchTeam''"
  "parentMap ''referralFee'' = None"
  "parentMap ''overrideCommission'' = None"
  "parentMap ''developerPayout'' = None"
  by (simp_all add: parentMap_eq)

lemma nodeAmounts_of_parent:
  assumes "k \<in> set (map fst payoutNodes)" and "k \<noteq> rootNodeId" and "\<not> isDynamicChild k"
    and "parentMap k = Some p" and "p \<noteq> []"
    and "\<not> (k = ''taggerFee'' \<and> p = ''taggerCombined'')"
  shows "\<exists>pv. nodeAmounts st p = Some pv \<and>
    nodeAmounts st k = Some (round2 (pv * percentOf (nodeValues st) k + fixedOf (nodeValues st) k))"
proof -
  obtain v where v: "nodeAmounts st k = Some v" using nodeAmounts_schema [OF assms(1)] by blast
  from nodeAmounts_settled [OF v] assms(2-6) show ?thesis
    using v by (auto simp: settled_payout_def truthy_def)
qed


lemma nodeAmounts_taggerFee:
  "nodeAmounts st ''taggerFee'' =
     Some (round2 (developerPayout st * percentOf (nodeValues st) ''taggerFee''
                   + fixedOf (nodeValues st) ''taggerFee''))"
proof -
  have "''taggerFee'' \<in> set (map fst payoutNodes)" by (simp add: schema_keys)
  then obtain v where v: "nodeAmounts st ''taggerFee'' = Some v"
    using nodeAmounts_schema by blast
  from nodeAmounts_settled [OF v] show ?thesis
    using v by (simp add: settled_payout_def truthy_def rootNodeId_def isDynamicChild_def parentMap_values)
qed

lemma nodeAmounts_parentless:
  assumes "k \<in> set (map fst payoutNodes)" and "k \<noteq> rootNodeId" and "\<not> isDynamicChild k"
    and "parentMap k = None"
  shows "nodeAmounts st k = Some 0"
proof -
  obtain v where v: "nodeAmounts st k = Some v" using nodeAmounts_schema [OF assms(1)] by blast
  from nodeAmounts_settled [OF v] assms(2-4) show ?thesis
    using v by (simp add: settled_payout_def truthy_def)
qed

lemma buildInitialValues_eq:
  "buildInitialValues ''taggerFee'' = Some \<lparr>percent = 0.003, fixed = 0\<rparr>"
  "buildInitialValues ''taggerCombined'' = Some \<lparr>percent = 0, fixed = 0\<rparr>"
  "buildInitialValues ''taggerIncentive'' = Some \<lparr>percent = 0, fixed = 2000\<rparr>"
  "buildInitialValues ''taggerKw'' = Some \<lparr>percent = 0.85, fixed = 0\<rparr>"
  "buildInitialValues ''newLaunchTeam'' = Some \<lparr>percent = 0.2, fixed = 0\<rparr>"
  "buildInitialValues ''projectLeads'' = Some \<lparr>percent = 0.5, fixed = 0\<rparr>"
  "buildInitialValues ''referralFee'' = Some \<lparr>percent = 0, fixed = 0\<rparr>"
  by (simp_all add: buildInitialValues_def payoutNodes_def template_def)

subsection \<open>Group display amount\<close>

lemma foldl_amounts: "foldl (\<lambda>sum childId. sum + amountOr0 amounts childId) a cs
    = a + sum_list (map (amountOr0 amounts) cs)"
  by (induction cs arbitrary: a) simp_all

text \<open>
  C4: for a node whose template has kind group, \<^verbatim>\<open>getDisplayAmount\<close> (of the tree and of
  the diagram) is the sum of the memo entries of the template's direct children, a missing
  entry counting 0; the group's own entry and values are not read.  With children resolved
  at 300.00 and 450.25 the group displays 750.25.
\<close>

theorem group_display_amount:
  assumes "map_of payoutNodes nodeId = Some t" and "kind t = Some Group"
  shows "getDisplayAmount amounts payout nodeId = sum_list (map (amountOr0 amounts) (childIdsOf t)) \<and>
    getDisplayAmount_diagram amounts payout dynChildren nodeId
      = sum_list (map (amountOr0 amounts) (childIdsOf t))"
  using assms by (simp add: getDisplayAmount_def getDisplayAmount_diagram_def foldl_amounts)

lemma groupState_amounts:
  "nodeAmounts groupState ''taggerFee'' = Some 300"
  "nodeAmounts groupState ''taggerIncentive'' = Some 450.25"
  "nodeAmounts groupState ''taggerCombined'' = Some 10007"
proof -
  show "nodeAmounts groupState ''taggerFee'' = Some 300"
    by (simp add: nodeAmounts_taggerFee)
       (simp add: groupState_def initialState_def percentOf_def fixedOf_def
          buildInitialValues_eq round2_def)
  have g: "\<exists>pv. nodeAmounts groupState ''developerPayout'' = Some pv \<and>
      nodeAmounts groupState ''taggerCombined''
        = Some (round2 (pv * percentOf (nodeValues groupState) ''taggerCombined''
                        + fixedOf (nodeValues groupState) ''taggerCombined''))"
    by (rule nodeAmounts_of_parent)
       (simp_all add: schema_keys rootNodeId_def isDynamicChild_def parentMap_values)
  have root: "nodeAmounts groupState ''developerPayout'' = Some 100000"
    using nodeAmounts_root [of groupState]
    by (simp add: rootNodeId_def groupState_def initialState_def)
  show c: "nodeAmounts groupState ''taggerCombined'' = Some 10007"
    using g root
    by (simp add: groupState_def initialState_def percentOf_def fixedOf_def round2_def)
  have i: "\<exists>pv. nodeAmounts groupState ''taggerCombined'' = Some pv \<and>
      nodeAmounts groupState ''taggerIncentive''
        = Some (round2 (pv * percentOf (nodeValues groupState) ''taggerIncentive''
                        + fixedOf (nodeValues groupState) ''taggerIncentive''))"
    by (rule nodeAmounts_of_parent)
       (simp_all add: schema_keys rootNodeId_def isDynamicChild_def parentMap_values)
  show "nodeAmounts groupState ''taggerIncentive'' = Some 450.25"
    using i c
    by (simp add: groupState_def initialState_def percentOf_def fixedOf_def round2_def)
qed

lemma taggerCombined_template:
  "map_of payoutNodes ''taggerCombined'' =
     Some \<lparr>tmpl_id = ''taggerCombined'', defaultPercent = Some 0, defaultFixed = None,
           childIds = Some [''taggerFee'', ''taggerIncentive''], kind = Some Group\<rparr>"
  by (simp add: payoutNodes_def template_def)

theorem group_display_amount_witness:
  "nodeAmounts groupState ''taggerFee'' = Some 300 \<and>
   nodeAmounts groupState ''taggerIncentive'' = Some 450.25 \<and>
   nodeAmounts groupState ''taggerCombined'' = Some 10007 \<and>
   getDisplayAmount (nodeAmounts groupState) (developerPayout groupState) ''taggerCombined'' = 750.25 \<and>
   getDisplayAmount_diagram (nodeAmounts groupState) (developerPayout groupState) [] ''taggerCombined''
     = 750.25"
  using group_display_amount [OF taggerCombined_template, of "nodeAmounts groupState"
      "developerPayout groupState" "[]"]
  by (simp add: groupState_amounts childIdsOf_def amountOr0_def)


subsection \<open>The diagram resolves as the tree does\<close>

lemma parentMap_not_dynamic: "parentMap k = Some p \<Longrightarrow> \<not> isDynamicChild p \<and> p \<noteq> []"
  by (drule parentMap_SomeD) (auto simp: parentPairs_def isDynamicChild_def)

lemma schema_not_dynamic: "k \<in> set (map fst payoutNodes) \<Longrightarrow> \<not> isDynamicChild k"
  by (auto simp: schema_keys isDynamicChild_def)

lemma compute_diagram_eq:
  "flow_developerPayout d = developerPayout st \<Longrightarrow> flow_nodeValues d = nodeValues st \<Longrightarrow>
   \<not> isDynamicChild nodeId \<or> amounts ''projectLeads'' \<noteq> None \<Longrightarrow>
   compute_diagram d nodeId amounts = compute_payout st nodeId amounts"
proof (induction st nodeId amounts rule: compute_payout.induct)
  case (1 st nodeId amounts)
  note dp = "1.prems"(1) and nv = "1.prems"(2) and side = "1.prems"(3)
  show ?case
  proof (cases "amounts nodeId")
    case (Some a)
    then show ?thesis
      by (subst compute_diagram.simps, subst compute_payout.simps) simp
  next
    case unset: None
    show ?thesis
    proof (cases "isDynamicChild nodeId")
      case dyn: True
      then obtain a where "amounts ''projectLeads'' = Some a" using side by auto
      then have "compute_payout st ''projectLeads'' amounts = (a, amounts)"
        by (subst compute_payout.simps) simp
      then show ?thesis using unset dyn nv
        by (subst compute_diagram.simps, subst compute_payout.simps) simp
    next
      case nodyn: False
      show ?thesis
      proof (cases "parentMap nodeId")
        case None
        then show ?thesis using unset nodyn
          by (subst compute_diagram.simps, subst compute_payout.simps) simp
      next
        case (Some p)
        then have p: "\<not> isDynamicChild p" "p \<noteq> []" using parentMap_not_dynamic by auto
        have "compute_diagram d p amounts = compute_payout st p amounts"
          using "1.IH"(2) [OF unset nodyn Some p(2) dp nv] p(1) by simp
        then show ?thesis using unset nodyn Some p(2) dp nv
          by (subst compute_diagram.simps, subst compute_payout.simps) (auto split: prod.splits)
      qed
    qed
  qed
qed

lemma computeKeys_diagram_eq:
  assumes "flow_developerPayout d = developerPayout st" and "flow_nodeValues d = nodeValues st"
  shows "(\<forall>k\<in>set keys. \<not> isDynamicChild k) \<or> amounts ''projectLeads'' \<noteq> None \<Longrightarrow>
    computeKeys_diagram d keys amounts = computeKeys st keys amounts"
proof (induction keys arbitrary: amounts)
  case Nil
  then show ?case by (simp add: computeKeys_diagram_def computeKeys_def)
next
  case (Cons x keys)
  let ?am = "snd (compute_payout st x amounts)"
  have one: "compute_diagram d x amounts = compute_payout st x amounts"
    using Cons.prems by (intro compute_diagram_eq [OF assms]) auto
  have "(\<forall>k\<in>set keys. \<not> isDynamicChild k) \<or> ?am ''projectLeads'' \<noteq> None"
    using Cons.prems by (auto dest: compute_payout_keeps)
  then have "computeKeys_diagram d keys ?am = computeKeys st keys ?am"
    by (rule Cons.IH)
  then show ?case using one by (simp add: computeKeys_diagram_def computeKeys_def)
qed

lemma nodeAmounts_diagram_eq:
  assumes "flow_developerPayout d = developerPayout st" and "flow_nodeValues d = nodeValues st"
    and "flow_dynamicChildren d = dynamicChildren st"
  shows "nodeAmounts_diagram d = nodeAmounts st"
proof -
  let ?a0 = "[rootNodeId \<mapsto> developerPayout st]"
  let ?a1 = "computeKeys st (map fst payoutNodes) ?a0"
  have first: "computeKeys_diagram d (map fst payoutNodes) ?a0 = ?a1"
    by (rule computeKeys_diagram_eq [OF assms(1,2)]) (simp add: schema_not_dynamic)
  have "''projectLeads'' \<in> set (map fst payoutNodes)" by (simp add: schema_keys)
  then have "?a1 ''projectLeads'' \<noteq> None" using computeKeys_defines by fastforce
  then have "computeKeys_diagram d (concat (map snd (dynamicChildren st))) ?a1
      = computeKeys st (concat (map snd (dynamicChildren st))) ?a1"
    by (intro computeKeys_diagram_eq [OF assms(1,2)]) simp
  then show ?thesis by (simp add: nodeAmounts_diagram_def nodeAmounts_def assms first)
qed

subsection \<open>Percent base under the group node\<close>

lemma parentMap_schema: "parentMap k = Some p \<Longrightarrow> p \<in> set (map fst payoutNodes)"
  by (drule parentMap_SomeD) (auto simp: parentPairs_def schema_keys)

lemma nodeAmounts_entry:
  assumes "nodeAmounts st k = Some v"
  shows "if k = rootNodeId then v = developerPayout st
       else if isDynamicChild k then v = round2 (fixedOf (nodeValues st) k)
       else case parentMap k of
         None \<Rightarrow> v = 0
       | Some p \<Rightarrow>
           \<exists>base. nodeAmounts st p = Some base \<and>
             v = round2 ((if k = ''taggerFee'' then developerPayout st else base)
                           * percentOf (nodeValues st) k + fixedOf (nodeValues st) k)"
proof -
  have s: "settled_payout st (nodeAmounts st) k v" using assms by (rule nodeAmounts_settled)
  show ?thesis
  proof (cases "parentMap k")
    case None
    then show ?thesis using s by (auto simp: settled_payout_def truthy_def)
  next
    case (Some p)
    then have "p \<noteq> []" using parentMap_not_dynamic by blast
    moreover have "p = ''taggerCombined''" if "k = ''taggerFee''"
      using that Some by (simp add: parentMap_values)
    moreover obtain base where "nodeAmounts st p = Some base"
      using nodeAmounts_schema [OF parentMap_schema [OF Some], of st] by blast
    ultimately show ?thesis using s Some
      by (auto simp: settled_payout_def truthy_def)
  qed
qed

lemma nodeAmounts_dynamic_child:
  assumes "k \<in> set (concat (map snd (dynamicChildren st)))" and "isDynamicChild k"
  shows "nodeAmounts st k = Some (round2 (fixedOf (nodeValues st) k))"
proof -
  obtain v where v: "nodeAmounts st k = Some v" using nodeAmounts_dynamic [OF assms(1)] by blast
  have "k \<noteq> rootNodeId" using assms(2) by (auto simp: rootNodeId_def isDynamicChild_def)
  then show ?thesis using nodeAmounts_entry [OF v] assms(2) v by simp
qed

text \<open>
  C5, as the code has it.  \<^verbatim>\<open>taggerCombined\<close> is the only group node; its children are
  \<^verbatim>\<open>taggerFee\<close> and \<^verbatim>\<open>taggerIncentive\<close> and its parent is the root.  Every id of the
  schema has an entry in the memo table, and every listed dynamic child (an id that starts
  with \<^verbatim>\<open>projectLeads_lead_\<close>) has its fixed value rounded to cents as its entry: its
  percent and its parent are not read.  Every entry is: the payout for the root; 0 for
  an id without a parent; and for every other id the cent rounding of base times percent
  plus fixed, where the base is the root payout for \<^verbatim>\<open>taggerFee\<close> and the entry of the
  nominal parent for every other id.  So \<^verbatim>\<open>taggerFee\<close> takes its percent of the root
  payout, and \<^verbatim>\<open>taggerIncentive\<close>, the group's other child, takes its percent of the
  group's own entry.  \<^verbatim>\<open>CommissionFlowDiagram\<close>, given the same payout, node values and
  dynamic children, computes the same table.
\<close>

theorem percent_base_of_every_node:
  "map fst (filter (\<lambda>(k, t). kind t = Some Group) payoutNodes) = [''taggerCombined''] \<and>
   map_option childIdsOf (map_of payoutNodes ''taggerCombined'')
     = Some [''taggerFee'', ''taggerIncentive''] \<and>
   parentMap ''taggerCombined'' = Some rootNodeId \<and>
   (\<forall>k\<in>set (map fst payoutNodes). nodeAmounts st k \<noteq> None) \<and>
   (\<forall>k\<in>set (concat (map snd (dynamicChildren st))). isDynamicChild k \<longrightarrow>
      nodeAmounts st k = Some (round2 (fixedOf (nodeValues st) k))) \<and>
   (\<forall>k v. nodeAmounts st k = Some v \<longrightarrow>
      (if k = rootNodeId then v = developerPayout st
       else if isDynamicChild k then v = round2 (fixedOf (nodeValues st) k)
       else case parentMap k of
         None \<Rightarrow> v = 0
       | Some p \<Rightarrow>
           \<exists>base. nodeAmounts st p = Some base \<and>
             v = round2 ((if k = ''taggerFee'' then developerPayout st else base)
                           * percentOf (nodeValues st) k + fixedOf (nodeValues st) k))) \<and>
   nodeAmounts st ''taggerFee'' =
     Some (round2 (developerPayout st * percentOf (nodeValues st) ''taggerFee''
                   + fixedOf (nodeValues st) ''taggerFee'')) \<and>
   (\<exists>groupAmount. nodeAmounts st ''taggerCombined'' = Some groupAmount \<and>
      nodeAmounts st ''taggerIncentive'' =
        Some (round2 (groupAmount * percentOf (nodeValues st) ''taggerIncentive''
                      + fixedOf (nodeValues st) ''taggerIncentive''))) \<and>
   (flow_developerPayout d = developerPayout st \<and> flow_nodeValues d = nodeValues st \<and>
    flow_dynamicChildren d = dynamicChildren st \<longrightarrow> nodeAmounts_diagram d = nodeAmounts st)"
proof -
  have group: "map fst (filter (\<lambda>(k, t). kind t = Some Group) payoutNodes) = [''taggerCombined'']"
    by (simp add: payoutNodes_def template_def)
  have children: "map_option childIdsOf (map_of payoutNodes ''taggerCombined'')
      = Some [''taggerFee'', ''taggerIncentive'']"
    by (simp add: taggerCombined_template childIdsOf_def)
  have parent: "parentMap ''taggerCombined'' = Some rootNodeId"
    by (simp add: parentMap_values rootNodeId_def)
  have entries: "\<forall>k\<in>set (map fst payoutNodes). nodeAmounts st k \<noteq> None"
    using nodeAmounts_schema [of _ st] by fastforce
  have leads: "\<forall>k\<in>set (concat (map snd (dynamicChildren st))). isDynamicChild k \<longrightarrow>
      nodeAmounts st k = Some (round2 (fixedOf (nodeValues st) k))"
    using nodeAmounts_dynamic_child by blast
  have each: "\<forall>k v. nodeAmounts st k = Some v \<longrightarrow>
      (if k = rootNodeId then v = developerPayout st
       else if isDynamicChild k then v = round2 (fixedOf (nodeValues st) k)
       else case parentMap k of
         None \<Rightarrow> v = 0
       | Some p \<Rightarrow>
           \<exists>base. nodeAmounts st p = Some base \<and>
             v = round2 ((if k = ''taggerFee'' then developerPayout st else base)
                           * percentOf (nodeValues st) k + fixedOf (nodeValues st) k))"
    using nodeAmounts_entry by blast
  have incentive: "\<exists>groupAmount. nodeAmounts st ''taggerCombined'' = Some groupAmount \<and>
      nodeAmounts st ''taggerIncentive''
        = Some (round2 (groupAmount * percentOf (nodeValues st) ''taggerIncentive''
                        + fixedOf (nodeValues st) ''taggerIncentive''))"
    by (rule nodeAmounts_of_parent)
       (simp_all add: schema_keys rootNodeId_def isDynamicChild_def parentMap_values)
  have diagram: "flow_developerPayout d = developerPayout st \<and> flow_nodeValues d = nodeValues st \<and>
      flow_dynamicChildren d = dynamicChildren st \<longrightarrow> nodeAmounts_diagram d = nodeAmounts st"
    using nodeAmounts_diagram_eq by blast
  from group children parent entries leads each nodeAmounts_taggerFee incentive diagram
  show ?thesis by (intro conjI)
qed

lemma incentiveState_amounts:
  "nodeAmounts incentiveState ''developerPayout'' = Some 1000000"
  "nodeAmounts incentiveState ''taggerCombined'' = Some 0"
  "nodeAmounts incentiveState ''taggerIncentive'' = Some 2000"
proof -
  show root: "nodeAmounts incentiveState ''developerPayout'' = Some 1000000"
    using nodeAmounts_root [of incentiveState]
    by (simp add: rootNodeId_def incentiveState_def initialState_def)
  have g: "\<exists>pv. nodeAmounts incentiveState ''developerPayout'' = Some pv \<and>
      nodeAmounts incentiveState ''taggerCombined''
        = Some (round2 (pv * percentOf (nodeValues incentiveState) ''taggerCombined''
                        + fixedOf (nodeValues incentiveState) ''taggerCombined''))"
    by (rule nodeAmounts_of_parent)
       (simp_all add: schema_keys rootNodeId_def isDynamicChild_def parentMap_values)
  show c: "nodeAmounts incentiveState ''taggerCombined'' = Some 0"
    using g root
    by (simp add: incentiveState_def initialState_def percentOf_def fixedOf_def round2_def
        buildInitialValues_eq)
  have i: "\<exists>pv. nodeAmounts incentiveState ''taggerCombined'' = Some pv \<and>
      nodeAmounts incentiveState ''taggerIncentive''
        = Some (round2 (pv * percentOf (nodeValues incentiveState) ''taggerIncentive''
                        + fixedOf (nodeValues incentiveState) ''taggerIncentive''))"
    by (rule nodeAmounts_of_parent)
       (simp_all add: schema_keys rootNodeId_def isDynamicChild_def parentMap_values)
  show "nodeAmounts incentiveState ''taggerIncentive'' = Some 2000"
    using i c
    by (simp add: incentiveState_def initialState_def percentOf_def fixedOf_def round2_def)
qed

lemma leadData_agrees:
  "flow_developerPayout leadData = developerPayout leadTreeState"
  "flow_nodeValues leadData = nodeValues leadTreeState"
  "flow_dynamicChildren leadData = dynamicChildren leadTreeState"
  by (simp_all add: leadData_def leadTreeState_def initialState_def)

lemma leadTreeState_lead:
  "''projectLeads_lead_1'' \<in> set (concat (map snd (dynamicChildren leadTreeState)))"
  "isDynamicChild ''projectLeads_lead_1''"
  by (simp_all add: leadTreeState_def initialState_def isDynamicChild_def)

theorem percent_base_of_every_node_witness:
  "nodeAmounts leadTreeState rootNodeId = Some 777777 \<and>
   nodeAmounts leadTreeState ''taggerFee'' = Some 2333.33 \<and>
   percentOf (nodeValues leadTreeState) ''projectLeads_lead_1'' = 0.9 \<and>
   fixedOf (nodeValues leadTreeState) ''projectLeads_lead_1'' = 12.347 \<and>
   nodeAmounts leadTreeState ''projectLeads_lead_1'' = Some 12.35 \<and>
   nodeAmounts_diagram leadData ''projectLeads_lead_1'' = Some 12.35"
proof -
  note t = percent_base_of_every_node [of leadTreeState leadData]
  have same: "nodeAmounts_diagram leadData = nodeAmounts leadTreeState"
    using t leadData_agrees by blast
  have root: "nodeAmounts leadTreeState rootNodeId = Some 777777"
    using nodeAmounts_root [of leadTreeState] by (simp add: leadTreeState_def initialState_def)
  have fee: "nodeAmounts leadTreeState ''taggerFee'' = Some 2333.33"
    using t
    by (simp add: leadTreeState_def initialState_def percentOf_def fixedOf_def
        buildInitialValues_eq round2_def)
  have "\<forall>k\<in>set (concat (map snd (dynamicChildren leadTreeState))). isDynamicChild k \<longrightarrow>
      nodeAmounts leadTreeState k = Some (round2 (fixedOf (nodeValues leadTreeState) k))"
    using t by blast
  then have "nodeAmounts leadTreeState ''projectLeads_lead_1''
      = Some (round2 (fixedOf (nodeValues leadTreeState) ''projectLeads_lead_1''))"
    using leadTreeState_lead by blast
  then have lead: "nodeAmounts leadTreeState ''projectLeads_lead_1'' = Some 12.35"
    by (simp add: leadTreeState_def initialState_def fixedOf_def round2_def)
  have pct: "percentOf (nodeValues leadTreeState) ''projectLeads_lead_1'' = 0.9"
    "fixedOf (nodeValues leadTreeState) ''projectLeads_lead_1'' = 12.347"
    by (simp_all add: leadTreeState_def initialState_def percentOf_def fixedOf_def)
  from root fee pct lead same show ?thesis by simp
qed

lemma incentiveData_agrees:
  "flow_developerPayout incentiveData = developerPayout incentiveState"
  "flow_nodeValues incentiveData = nodeValues incentiveState"
  "flow_dynamicChildren incentiveData = dynamicChildren incentiveState"
  by (simp_all add: incentiveData_def incentiveState_def initialState_def)

text \<open>
  C5 as stated fails for the group's other child.  With commission data of payout 1000000
  and \<^verbatim>\<open>taggerIncentive\<close> at 50 percent plus 2000, the nearest non-group ancestor is the
  root and the stated rule gives 502000; the diagram takes 50 percent of the group's
  entry, 0, and resolves the node to 2000.
\<close>

theorem incentive_percent_base_counterexample:
  "parentMap ''taggerIncentive'' = Some ''taggerCombined'' \<and>
   map_option kind (map_of payoutNodes ''taggerCombined'') = Some (Some Group) \<and>
   parentMap ''taggerCombined'' = Some rootNodeId \<and>
   percentOf (flow_nodeValues incentiveData) ''taggerIncentive'' = 1 / 2 \<and>
   fixedOf (flow_nodeValues incentiveData) ''taggerIncentive'' = 2000 \<and>
   nodeAmounts_diagram incentiveData rootNodeId = Some 1000000 \<and>
   nodeAmounts_diagram incentiveData ''taggerCombined'' = Some 0 \<and>
   nodeAmounts_diagram incentiveData ''taggerIncentive'' = Some 2000 \<and>
   round2 (1000000 * (1 / 2) + 2000) = 502000"
  by (simp add: parentMap_values taggerCombined_template rootNodeId_def incentiveState_amounts
      nodeAmounts_diagram_eq [OF incentiveData_agrees])
     (simp add: incentiveData_def percentOf_def fixedOf_def round2_def)

subsection \<open>Parentless nodes\<close>

text \<open>
  C8, as the code has it.  The free-form engine has no root scalar and no canonical root:
  in a list with unique ids every parentless node (of any id but \<^verbatim>\<open>__proto__\<close>, under
  which nothing can be stored) resolves to the sum of its fixed values when the fixed flag
  is set and the list is not empty, else to its legacy single fixed value when the flag is
  set and the value is present, else to its \<^verbatim>\<open>amountValue\<close>.
  In the template tree the nodes without a parent other than the root
  (\<^verbatim>\<open>referralFee\<close>, \<^verbatim>\<open>overrideCommission\<close>) resolve to 0 whatever their values.
\<close>

theorem parentless_amount:
  assumes "distinct (map ident nodeList)" and "node \<in> set nodeList" and "noParent node"
    and "ident node \<noteq> ''__proto__''"
  shows "calculateNodeAmounts nodeList (ident node) =
     Some (Num (if useFixed node \<and> hasValues (fixedValues node) then sum_list (the (fixedValues node))
                else if useFixed node \<and> fixedValue node \<noteq> None then the (fixedValue node)
                else amountValue node)) \<and>
     nodeAmounts st ''referralFee'' = Some 0 \<and> nodeAmounts st ''overrideCommission'' = Some 0"
proof -
  have "seedRoots nodeList (ident node) = Some (Num (rootAmount node))"
    using assms by (rule seedRoots_root)
  then have "calculateNodeAmounts nodeList (ident node) = Some (Num (rootAmount node))"
    unfolding calculateNodeAmounts_def by (rule computeAll_keeps)
  moreover have "nodeAmounts st ''referralFee'' = Some 0"
    by (rule nodeAmounts_parentless)
       (simp_all add: schema_keys rootNodeId_def isDynamicChild_def parentMap_values)
  moreover have "nodeAmounts st ''overrideCommission'' = Some 0"
    by (rule nodeAmounts_parentless)
       (simp_all add: schema_keys rootNodeId_def isDynamicChild_def parentMap_values)
  ultimately show ?thesis
    by (auto simp add: rootAmount_def orZero_def sumValues_sum_list)
qed

theorem parentless_amount_witness:
  "calculateNodeAmounts [exampleRoot, detachedFixed, detachedPercent] ''detached'' = Some (Num 75) \<and>
   calculateNodeAmounts [exampleRoot, detachedFixed, detachedPercent] ''root'' = Some (Num 1000) \<and>
   fixedOf (nodeValues referralState) ''referralFee'' = 75 \<and>
   nodeAmounts referralState ''referralFee'' = Some 0"
  using parentless_amount [of "[exampleRoot, detachedFixed, detachedPercent]" detachedFixed referralState]
    parentless_amount [of "[exampleRoot, detachedFixed, detachedPercent]" exampleRoot referralState]
  by (simp add: exampleRoot_def detachedFixed_def detachedPercent_def noParent_def hasValues_def
      referralState_def initialState_def fixedOf_def)

text \<open>
  C8 as stated fails without the fixed flag: the parentless node \<open>detachedPercent\<close>
  (a 50 percent node as the canvas builds it from commission data, after its connection
  was deleted; \<^verbatim>\<open>useFixed\<close> unset) resolves to its \<^verbatim>\<open>amountValue\<close>, 50, not to 0.
\<close>

theorem parentless_without_fixed_counterexample:
  "parentId detachedPercent = None \<and> \<not> useFixed detachedPercent \<and>
   calculateNodeAmounts [exampleRoot, detachedFixed, detachedPercent] (ident detachedPercent)
     = Some (Num 50)"
  by (simp add: engine_eval exampleRoot_def detachedFixed_def detachedPercent_def)


subsection \<open>Reordering siblings\<close>

text \<open>
  C9: \<^verbatim>\<open>handleDragEnd\<close>, whichever branch it takes (reorder included), leaves the
  payout, the node values and the dynamic children as they were, so the memo of resolved
  amounts after it equals the memo before it, and so does every displayed amount.
\<close>

theorem reorder_keeps_amounts:
  "nodeAmounts (handleDragEnd event st) = nodeAmounts st \<and>
   (\<forall>nodeId. getDisplayAmount (nodeAmounts (handleDragEnd event st))
                (developerPayout (handleDragEnd event st)) nodeId
              = getDisplayAmount (nodeAmounts st) (developerPayout st) nodeId)"
proof -
  have frame: "developerPayout (handleDragEnd event st) = developerPayout st"
    "nodeValues (handleDragEnd event st) = nodeValues st"
    "dynamicChildren (handleDragEnd event st) = dynamicChildren st"
    by (simp_all add: handleDragEnd_def Let_def split: option.splits)
  then have "nodeAmounts (handleDragEnd event st) = nodeAmounts st"
    by (rule nodeAmounts_cong)
  then show ?thesis using frame(1) by simp
qed

lemma initial_order:
  "buildInitialOrders ''developerPayout'' = Some [''directIcb'', ''taggerCombined'', ''eraAgency'']"
  by (simp add: buildInitialOrders_def payoutNodes_def template_def childIdsOf_def)

theorem reorder_keeps_amounts_witness:
  "childOrders initialState ''developerPayout''
     = Some [''directIcb'', ''taggerCombined'', ''eraAgency''] \<and>
   childOrders (handleDragEnd reorderEvent initialState) ''developerPayout''
     = Some [''taggerCombined'', ''eraAgency'', ''directIcb''] \<and>
   nodeAmounts (handleDragEnd reorderEvent initialState) = nodeAmounts initialState"
proof -
  have "childOrders (handleDragEnd reorderEvent initialState) ''developerPayout''
     = Some [''taggerCombined'', ''eraAgency'', ''directIcb'']"
    by (simp add: handleDragEnd_def reorderEvent_def initialState_def rootNodeId_def truthy_def
        initial_order arrayMove_def)
  then show ?thesis
    using reorder_keeps_amounts [of reorderEvent initialState]
    by (simp add: initialState_def initial_order)
qed

subsection \<open>Dynamic expansion\<close>












subsection \<open>Deleting a node\<close>

text \<open>
  C6 on the code: \<^verbatim>\<open>handleDeleteNode\<close> removes the node and every connection that
  names it, and leaves the \<^verbatim>\<open>parentId\<close> of the former children pointing at the deleted
  id; \<^verbatim>\<open>handleDeleteConnection\<close>, on the same canvas, does clear the child's
  \<^verbatim>\<open>parentId\<close>.
\<close>

theorem handleDeleteNode_keeps_parentId:
  "nodes (handleDeleteNode ''root'' deleteExample) = [exampleChild] \<and>
   connections (handleDeleteNode ''root'' deleteExample) = [] \<and>
   map parentId (nodes (handleDeleteNode ''root'' deleteExample)) = [Some ''root''] \<and>
   map parentId (nodes (handleDeleteConnection ''conn-root-child'' deleteExample)) = [None, None]"
  by (simp add: handleDeleteNode_def handleDeleteConnection_def deleteExample_def
      exampleRoot_def exampleChild_def)



end
